theory Spec2Isabelle
  imports Main
begin

section \<open>JavaScript values, errors and promises\<close>

text \<open>
  A thrown JavaScript error object: its constructor name, the optional \<open>code\<close> property
  (file-system errors carry one, \<open>new Error(msg)\<close> and engine errors do not) and its
  message. Two error objects are the same when all three agree.
\<close>

record js_error =
  err_name :: string
  err_code :: "string option"
  err_message :: string

definition Error :: "string \<Rightarrow> js_error" where
  "Error msg = \<lparr>err_name = ''Error'', err_code = None, err_message = msg\<rparr>"

definition TypeError :: "string \<Rightarrow> js_error" where
  "TypeError msg = \<lparr>err_name = ''TypeError'', err_code = None, err_message = msg\<rparr>"

text \<open>
  Values produced by \<open>JSON.parse\<close>. JavaScript's \<open>undefined\<close> is \<open>None\<close> of
  \<open>json option\<close>. Numbers are restricted to the integers that JavaScript prints in
  plain decimal; nothing below computes with them. Strings are lists of 8-bit
  characters; a character beyond them would behave, in everything below, like any
  character that is not an ASCII letter, digit or punctuation mark.
\<close>

datatype json =
    JNull
  | JBool bool
  | JNum int
  | JStr string
  | JArr "json list"
  | JObj "(string \<times> json) list"

text \<open>
  Property access \<open>v.p\<close>, for the property names the program reads (\<open>installed\<close>,
  \<open>client_id\<close>, \<open>client_secret\<close>, \<open>redirect_uris\<close>, \<open>access_token\<close>,
  \<open>resource_server_base_uri\<close>, \<open>contactId\<close>): none of them is a built-in property of
  a string, array, number or boolean, so only an object can hold one. Reading a property
  of \<open>null\<close> or \<open>undefined\<close> throws.
\<close>

fun prop_of :: "json \<Rightarrow> string \<Rightarrow> json option" where
  "prop_of (JObj kvs) p = map_of kvs p"
| "prop_of v p = None"

fun get_prop :: "json option \<Rightarrow> string \<Rightarrow> js_error + json option" where
  "get_prop None p = Inl (TypeError (''Cannot read property '' @ p @ '' of undefined''))"
| "get_prop (Some JNull) p = Inl (TypeError (''Cannot read property '' @ p @ '' of null''))"
| "get_prop (Some v) p = Inr (prop_of v p)"

text \<open>Element access \<open>v[0]\<close>.\<close>

fun get_index0 :: "json option \<Rightarrow> js_error + json option" where
  "get_index0 None = Inl (TypeError ''Cannot read property 0 of undefined'')"
| "get_index0 (Some JNull) = Inl (TypeError ''Cannot read property 0 of null'')"
| "get_index0 (Some (JArr xs)) = Inr (case xs of [] \<Rightarrow> None | x # _ \<Rightarrow> Some x)"
| "get_index0 (Some (JStr s)) = Inr (case s of [] \<Rightarrow> None | c # _ \<Rightarrow> Some (JStr [c]))"
| "get_index0 (Some (JObj kvs)) = Inr (map_of kvs ''0'')"
| "get_index0 (Some v) = Inr None"

text \<open>Truthiness, as \<open>if (x)\<close> and \<open>&&\<close> test it.\<close>

fun truthy :: "json option \<Rightarrow> bool" where
  "truthy None = False"
| "truthy (Some JNull) = False"
| "truthy (Some (JBool b)) = b"
| "truthy (Some (JNum n)) = (n \<noteq> 0)"
| "truthy (Some (JStr s)) = (s \<noteq> [])"
| "truthy (Some (JArr xs)) = True"
| "truthy (Some (JObj kvs)) = True"

text \<open>
  Conversion to a string, as string concatenation and template literals do it.
\<close>

fun show_nat :: "nat \<Rightarrow> string" where
  "show_nat n =
     (if n < 10 then [''0123456789'' ! n]
      else show_nat (n div 10) @ [''0123456789'' ! (n mod 10)])"

declare show_nat.simps [simp del]

fun join_with :: "string \<Rightarrow> string list \<Rightarrow> string" where
  "join_with sep [] = []"
| "join_with sep [x] = x"
| "join_with sep (x # y # ys) = x @ sep @ join_with sep (y # ys)"

fun ToString :: "json \<Rightarrow> string" where
  "ToString JNull = ''null''"
| "ToString (JBool b) = (if b then ''true'' else ''false'')"
| "ToString (JNum n) = (if n < 0 then CHR ''-'' # show_nat (nat (- n)) else show_nat (nat n))"
| "ToString (JStr s) = s"
| "ToString (JArr xs) = join_with '','' (map (\<lambda>x. if x = JNull then [] else ToString x) xs)"
| "ToString (JObj kvs) = ''[object Object]''"

definition js_to_string :: "json option \<Rightarrow> string" where
  "js_to_string v = (case v of None \<Rightarrow> ''undefined'' | Some j \<Rightarrow> ToString j)"

text \<open>
  Everything observable that a run does, in program order. The exchange of the
  authorization code is recorded with its answer.
\<close>

record http_request =
  url :: string
  http_method :: string
  req_body :: string
  req_headers :: "(string \<times> string) list"

record id_pair =
  msgId :: string
  contactId :: "json option"

datatype event =
    ConsoleLog string
  | ConsoleError string
  | ConsoleLogResults "id_pair list"
  | ConsoleLogErr js_error
  | ReadFile string
  | WriteFile string string
  | Question string
  | OAuthGetToken string "js_error + json"
  | GmailMessagesGet string
  | GmailMessagesList
  | Fetch http_request

text \<open>
  A promise-returning method of an object with state \<open>'s\<close>: run from a state, it settles
  with an error (rejected, \<open>Inl\<close>) or a value (fulfilled, \<open>Inr\<close>), leaves a new state
  and has emitted some events.
\<close>

type_synonym ('s, 'a) promise = "'s \<Rightarrow> (js_error + 'a) \<times> 's \<times> event list"

definition resolve :: "'a \<Rightarrow> ('s, 'a) promise" where
  "resolve a s = (Inr a, s, [])"

definition reject :: "js_error \<Rightarrow> ('s, 'a) promise" where
  "reject e s = (Inl e, s, [])"

definition emit :: "event \<Rightarrow> ('s, unit) promise" where
  "emit ev s = (Inr (), s, [ev])"

definition settle :: "js_error + 'a \<Rightarrow> ('s, 'a) promise" where
  "settle r s = (r, s, [])"

definition then_p :: "('s, 'a) promise \<Rightarrow> ('a \<Rightarrow> ('s, 'b) promise) \<Rightarrow> ('s, 'b) promise" where
  "then_p p f s =
     (case p s of
        (Inl e, s1, t1) \<Rightarrow> (Inl e, s1, t1)
      | (Inr a, s1, t1) \<Rightarrow> (case f a s1 of (r, s2, t2) \<Rightarrow> (r, s2, t1 @ t2)))"

definition catch_p :: "('s, 'a) promise \<Rightarrow> (js_error \<Rightarrow> ('s, 'a) promise) \<Rightarrow> ('s, 'a) promise" where
  "catch_p p h s =
     (case p s of
        (Inl e, s1, t1) \<Rightarrow> (case h e s1 of (r, s2, t2) \<Rightarrow> (r, s2, t1 @ t2))
      | (Inr a, s1, t1) \<Rightarrow> (Inr a, s1, t1))"

definition outcome :: "(js_error + 'a) \<times> 's \<times> event list \<Rightarrow> js_error + 'a" where
  "outcome r = fst r"

definition final_state :: "(js_error + 'a) \<times> 's \<times> event list \<Rightarrow> 's" where
  "final_state r = fst (snd r)"

definition trace :: "(js_error + 'a) \<times> 's \<times> event list \<Rightarrow> event list" where
  "trace r = snd (snd r)"

section \<open>The regular expression of \<open>getMessage\<close>\<close>

text \<open>
  The fragment of regular expressions that
  \<^verbatim>\<open>/([a-zA-Z0-9._-]+@[a-zA-Z0-9._-]+\.[a-zA-Z0-9._-]+)/gi\<close> uses: a sequence of
  pieces, each a single character or a character class, taken once or one-or-more times
  (greedy). With the \<open>g\<close> flag \<open>String.prototype.match\<close> returns whole matches only, so
  the capturing group does not show in the result.
\<close>

datatype class_item = Range char char | Single char

datatype atom = Lit char | CharClass "class_item list"

datatype piece = Once atom | Plus atom

definition upper_code :: "nat \<Rightarrow> nat" where
  "upper_code n = (if 97 \<le> n \<and> n \<le> 122 then n - 32 else n)"

definition lower_code :: "nat \<Rightarrow> nat" where
  "lower_code n = (if 65 \<le> n \<and> n \<le> 90 then n + 32 else n)"

fun item_has :: "class_item \<Rightarrow> nat \<Rightarrow> bool" where
  "item_has (Range lo hi) n = (of_char lo \<le> n \<and> n \<le> of_char hi)"
| "item_has (Single x) n = (n = of_char x)"

text \<open>
  With the \<open>i\<close> flag a character matches when it equals a member up to ASCII case
  (the canonicalization never maps a character outside ASCII into ASCII).
\<close>

definition item_accepts :: "bool \<Rightarrow> class_item \<Rightarrow> nat \<Rightarrow> bool" where
  "item_accepts ignoreCase it n =
     (item_has it n \<or> (ignoreCase \<and> (item_has it (upper_code n) \<or> item_has it (lower_code n))))"

fun accepts :: "bool \<Rightarrow> atom \<Rightarrow> char \<Rightarrow> bool" where
  "accepts ignoreCase (Lit x) c = item_accepts ignoreCase (Single x) (of_char c)"
| "accepts ignoreCase (CharClass items) c = list_ex (\<lambda>it. item_accepts ignoreCase it (of_char c)) items"

text \<open>
  Backtracking match of a sequence of pieces at the start of \<open>s\<close>: the matched prefix,
  or \<open>None\<close>. A greedy \<open>+\<close> first tries to take one more character and gives characters
  back, one at a time, while the rest of the pattern fails.
\<close>

fun rmatch :: "bool \<Rightarrow> piece list \<Rightarrow> string \<Rightarrow> string option" where
  "rmatch ic [] s = Some []"
| "rmatch ic (Once a # r) [] = None"
| "rmatch ic (Once a # r) (c # cs) =
     (if accepts ic a c then map_option ((#) c) (rmatch ic r cs) else None)"
| "rmatch ic (Plus a # r) [] = None"
| "rmatch ic (Plus a # r) (c # cs) =
     (if accepts ic a c then
        (case rmatch ic (Plus a # r) cs of
           Some m \<Rightarrow> Some (c # m)
         | None \<Rightarrow> map_option ((#) c) (rmatch ic r cs))
      else None)"

text \<open>
  \<open>str.match(re)\<close> for a global \<open>re\<close>: every match, left to right, the search resuming
  after the end of the previous match (one character further after an empty match);
  \<open>null\<close> when there is none.
\<close>

function match_all :: "bool \<Rightarrow> piece list \<Rightarrow> string \<Rightarrow> string list" where
  "match_all ic re s =
     (case rmatch ic re s of
        Some m \<Rightarrow>
          (if s = [] then [m]
           else m # match_all ic re (drop (max 1 (length m)) s))
      | None \<Rightarrow>
          (case s of [] \<Rightarrow> [] | c # cs \<Rightarrow> match_all ic re cs))"
  by pat_completeness auto
termination
  by (relation "measure (\<lambda>(ic, re, s). length s)") auto

declare match_all.simps [simp del]

definition string_match :: "string \<Rightarrow> bool \<Rightarrow> piece list \<Rightarrow> string list option" where
  "string_match s ic re = (case match_all ic re s of [] \<Rightarrow> None | ms \<Rightarrow> Some ms)"

definition address_class :: atom where
  "address_class =
     CharClass [Range CHR ''a'' CHR ''z'', Range CHR ''A'' CHR ''Z'', Range CHR ''0'' CHR ''9'',
                Single CHR ''.'', Single CHR ''_'', Single CHR ''-'']"

definition address_regex :: "piece list" where
  "address_regex =
     [Plus address_class, Once (Lit CHR ''@''), Plus address_class, Once (Lit CHR ''.''),
      Plus address_class]"

section \<open>The outside world\<close>

text \<open>
  The OAuth2 client object of the Google library, as far as the program touches it: the
  three constructor arguments and the credentials set by \<open>setCredentials\<close>.
\<close>

record oauth2_client =
  client_id :: "json option"
  client_secret :: "json option"
  redirect_uri :: "json option"
  credentials :: json

text \<open>
  The message resource that \<open>users.messages.get\<close> answers with (\<open>res.data\<close>), typed as
  the mail API documents it: an id, the payload's header list and the payload body,
  whose \<open>data\<close> field may be missing.
\<close>

record header =
  name :: string
  header_value :: string

record message_resource =
  data_id :: string
  payload_headers :: "header list"
  payload_body_data :: "string option"

record message_ref =
  ref_id :: string

record http_response =
  status :: nat
  response_json :: "js_error + json"

text \<open>
  Files, the operator, the library functions and the two remote services are parameters
  of the model: each is a function from the request to the answer the program receives.
  \<open>atob\<close> and \<open>btoa\<close> are the npm packages of these names, \<open>JSON_parse\<close> and
  \<open>JSON_stringify\<close> the built-ins.
\<close>

record world =
  readFile :: "string \<Rightarrow> js_error + string"
  writeFile :: "string \<Rightarrow> string \<Rightarrow> js_error option"
  JSON_parse :: "string \<Rightarrow> js_error + json"
  JSON_stringify :: "json \<Rightarrow> string"
  rl_question :: "string \<Rightarrow> string"
  generateAuthUrl :: "oauth2_client \<Rightarrow> string"
  oauth_getToken :: "oauth2_client \<Rightarrow> string \<Rightarrow> js_error + json"
  messages_get :: "oauth2_client option \<Rightarrow> string \<Rightarrow> js_error + message_resource"
  messages_list :: "oauth2_client option \<Rightarrow> js_error + message_ref list option"
  fetch :: "http_request \<Rightarrow> js_error + http_response"
  atob :: "string \<Rightarrow> string"
  btoa :: "string \<Rightarrow> string"

section \<open>gmail.js\<close>

record gmail =
  credentialFile :: string
  tokenFile :: string
  oAuth2Client :: "oauth2_client option"

definition new_Gmail :: "string \<Rightarrow> string \<Rightarrow> gmail" where
  "new_Gmail cf tf = \<lparr>credentialFile = cf, tokenFile = tf, oAuth2Client = None\<rparr>"

record mail_message =
  msg_id :: string
  msg_from :: string
  msg_payload :: string

subsection \<open>getMessage\<close>

text \<open>
  The \<open>.then\<close> handler of \<open>getMessage\<close>. \<open>find\<close> yields \<open>undefined\<close> when no header is
  named \<open>From\<close>, and reading \<open>.value\<close> of \<open>undefined\<close> throws a \<open>TypeError\<close> (the
  message text is the engine's). \<open>first_address\<close> is the computation of \<open>from\<close>:
  \<open>arr\<close> is \<open>null\<close> or the array of all matches, and \<open>arr[0]\<close> the first one. An empty
  string is falsy, so empty body data is not decoded.
\<close>

definition first_address :: "string \<Rightarrow> string" where
  "first_address v =
     (let arr = string_match v True address_regex
      in case arr of Some ms \<Rightarrow> hd ms | None \<Rightarrow> '''')"

definition getMessage_then :: "world \<Rightarrow> message_resource \<Rightarrow> js_error + mail_message" where
  "getMessage_then w res =
     (case find (\<lambda>x. name x = ''From'') (payload_headers res) of
        None \<Rightarrow> Inl (TypeError ''Cannot read property value of undefined'')
      | Some h \<Rightarrow>
          (let from = first_address (header_value h);
               payload = (case payload_body_data res of
                            Some d \<Rightarrow> (if d \<noteq> '''' then atob w d else '''')
                          | None \<Rightarrow> '''')
           in Inr \<lparr>msg_id = data_id res, msg_from = from, msg_payload = payload\<rparr>))"

definition getMessage :: "world \<Rightarrow> string \<Rightarrow> (gmail, mail_message) promise" where
  "getMessage w i =
     then_p (emit (ConsoleLog (''getMessage() - id: '' @ i))) (\<lambda>_.
       catch_p
         (then_p
            (\<lambda>g. (messages_get w (oAuth2Client g) i, g, [GmailMessagesGet i]))
            (\<lambda>res. settle (getMessage_then w res)))
         (\<lambda>err. then_p (emit (ConsoleError (''getMessage() - '' @ err_message err)))
                   (\<lambda>_. reject err)))"

subsection \<open>getMessageList\<close>

definition getMessageList :: "world \<Rightarrow> (gmail, message_ref list option) promise" where
  "getMessageList w =
     then_p (emit (ConsoleLog ''getMessageList()'')) (\<lambda>_.
       catch_p
         (then_p
            (\<lambda>g. (messages_list w (oAuth2Client g), g, [GmailMessagesList]))
            (\<lambda>msgs. resolve msgs))
         (\<lambda>err. then_p (emit (ConsoleError (''getMessageList() - '' @ err_message err)))
                   (\<lambda>_. reject err)))"

subsection \<open>authorize and _getNewToken\<close>

definition new_OAuth2 :: "json option \<Rightarrow> json option \<Rightarrow> json option \<Rightarrow> oauth2_client" where
  "new_OAuth2 cid secret uri =
     \<lparr>client_id = cid, client_secret = secret, redirect_uri = uri, credentials = JObj []\<rparr>"

text \<open>A method call on \<open>this.oAuth2Client\<close> throws when the field is still \<open>null\<close>.\<close>

definition the_client :: "string \<Rightarrow> (gmail, oauth2_client) promise" where
  "the_client method g =
     (case oAuth2Client g of
        None \<Rightarrow> (Inl (TypeError (''Cannot read property '' @ method @ '' of null'')), g, [])
      | Some c \<Rightarrow> (Inr c, g, []))"

definition setCredentials :: "json \<Rightarrow> (gmail, unit) promise" where
  "setCredentials token =
     then_p (the_client ''setCredentials'')
       (\<lambda>c g. (Inr (), g\<lparr>oAuth2Client := Some (c\<lparr>credentials := token\<rparr>)\<rparr>, []))"

definition readFileAsync :: "world \<Rightarrow> string \<Rightarrow> ('s, string) promise" where
  "readFileAsync w path s = (readFile w path, s, [ReadFile path])"

definition writeFileAsync :: "world \<Rightarrow> string \<Rightarrow> string \<Rightarrow> ('s, unit) promise" where
  "writeFileAsync w path content s =
     ((case writeFile w path content of None \<Rightarrow> Inr () | Some e \<Rightarrow> Inl e), s,
      [WriteFile path content])"

definition ask :: "world \<Rightarrow> (gmail, string) promise" where
  "ask w =
     then_p (emit (ConsoleLog ''_ask()'')) (\<lambda>_ g.
       (Inr (rl_question w ''Enter the code from that page here: ''), g,
        [Question ''Enter the code from that page here: '']))"

text \<open>
  \<open>_getNewToken\<close>, with its first two \<open>.then\<close> handlers named. A throw of the
  executor itself (\<open>generateAuthUrl\<close> on a \<open>null\<close> client) rejects the promise without
  passing the inner \<open>.catch\<close>, so it is not logged.
\<close>

definition getNewToken_exchange :: "world \<Rightarrow> string \<Rightarrow> (gmail, json) promise" where
  "getNewToken_exchange w code =
     then_p (the_client ''getToken'')
       (\<lambda>c g. (oauth_getToken w c code, g, [OAuthGetToken code (oauth_getToken w c code)]))"

definition getNewToken_store :: "world \<Rightarrow> json \<Rightarrow> (gmail, unit) promise" where
  "getNewToken_store w token =
     then_p (setCredentials token)
       (\<lambda>_ g. writeFileAsync w (tokenFile g) (JSON_stringify w token) g)"

definition getNewToken :: "world \<Rightarrow> (gmail, unit) promise" where
  "getNewToken w =
     then_p (emit (ConsoleLog ''_getNewToken()'')) (\<lambda>_.
     then_p (the_client ''generateAuthUrl'') (\<lambda>c.
     then_p (emit (ConsoleLog (''Authorize this app by visiting this url: '' @ generateAuthUrl w c)))
       (\<lambda>_.
     catch_p
       (then_p (then_p (then_p (ask w) (getNewToken_exchange w)) (getNewToken_store w))
          (\<lambda>_. resolve ()))
       (\<lambda>err. then_p (emit (ConsoleError (''_getNewToken() - '' @ err_message err)))
                 (\<lambda>_. reject err)))))"

text \<open>
  The destructuring \<open>const {client_secret, client_id, redirect_uris} = v\<close>: it throws on
  \<open>undefined\<close> and \<open>null\<close> and reads the three properties otherwise.
\<close>

definition destructure_installed ::
  "json option \<Rightarrow> js_error + (json option \<times> json option \<times> json option)" where
  "destructure_installed v =
     (case v of
        None \<Rightarrow> Inl (TypeError ''Cannot destructure property client_secret of undefined'')
      | Some JNull \<Rightarrow> Inl (TypeError ''Cannot destructure property client_secret of null'')
      | Some j \<Rightarrow> Inr (prop_of j ''client_secret'', prop_of j ''client_id'',
                        prop_of j ''redirect_uris''))"

text \<open>
  \<open>authorize\<close>, with its three handlers named. A statement of a handler that throws
  rejects the promise of its \<open>.then\<close>, so the statements of a handler are chained like
  promises. The single \<open>.catch\<close> closes the whole chain: it sees the failures of both
  file reads and of both handlers.
\<close>

definition authorize_cred :: "world \<Rightarrow> string \<Rightarrow> (gmail, string) promise" where
  "authorize_cred w cred =
     then_p (settle (JSON_parse w cred)) (\<lambda>credentials.
     then_p (settle (get_prop (Some credentials) ''installed'')) (\<lambda>installed.
     then_p (settle (destructure_installed installed))
       (\<lambda>(client_secret, client_id, redirect_uris).
     then_p (settle (get_index0 redirect_uris)) (\<lambda>uri0.
     then_p (\<lambda>g. (Inr (),
                    g\<lparr>oAuth2Client := Some (new_OAuth2 client_id client_secret uri0)\<rparr>,
                    []))
       (\<lambda>_ g. readFileAsync w (tokenFile g) g)))))"

definition authorize_result :: "world \<Rightarrow> string \<Rightarrow> (gmail, unit) promise" where
  "authorize_result w result =
     then_p (the_client ''setCredentials'') (\<lambda>_.
     then_p (settle (JSON_parse w result)) (\<lambda>token.
     setCredentials token))"

definition authorize_catch :: "world \<Rightarrow> js_error \<Rightarrow> (gmail, unit) promise" where
  "authorize_catch w err =
     (if err_code err = Some ''ENOENT'' then getNewToken w
      else then_p (emit (ConsoleError (''authorize() - '' @ err_message err)))
             (\<lambda>_. reject err))"

definition authorize :: "world \<Rightarrow> (gmail, unit) promise" where
  "authorize w =
     then_p (emit (ConsoleLog ''authorize()'')) (\<lambda>_.
     catch_p
       (then_p
          (then_p (\<lambda>g. readFileAsync w (credentialFile g) g) (authorize_cred w))
          (authorize_result w))
       (authorize_catch w))"

section \<open>workitem.js\<close>

record workitem =
  key :: string
  poc :: string

definition new_WorkItem :: "world \<Rightarrow> string \<Rightarrow> string \<Rightarrow> string \<Rightarrow> string \<Rightarrow> workitem" where
  "new_WorkItem w app vendor secret p =
     \<lparr>key = btoa w (app @ ''@'' @ vendor @ '':'' @ secret), poc = p\<rparr>"

text \<open>\<open>response.ok\<close> of the fetch API: the status is in the range 200 to 299.\<close>

definition response_ok :: "http_response \<Rightarrow> bool" where
  "response_ok r = (200 \<le> status r \<and> status r < 300)"

definition fetch_p :: "world \<Rightarrow> http_request \<Rightarrow> ('s, http_response) promise" where
  "fetch_p w req s = (fetch w req, s, [Fetch req])"

text \<open>
  The first \<open>.then\<close> handler of \<open>getToken\<close> and of \<open>postWorkItem\<close>. The request
  options \<open>cache\<close> and \<open>mode\<close> are constant and left out of \<open>http_request\<close>.
\<close>

definition json_if_ok :: "http_response \<Rightarrow> js_error + json" where
  "json_if_ok response =
     (if response_ok response then response_json response
      else Inl (Error (''response status: '' @ show_nat (status response))))"

definition token_request :: "workitem \<Rightarrow> world \<Rightarrow> http_request" where
  "token_request this w =
     \<lparr>url = ''https://api.incontact.com/InContactAuthorizationServer/Token'',
      http_method = ''POST'',
      req_body = JSON_stringify w (JObj [(''grant_type'', JStr ''client_credentials'')]),
      req_headers = [(''Content-Type'', ''application/json''),
                     (''Authorization'', ''basic '' @ key this)]\<rparr>"

definition getToken :: "world \<Rightarrow> workitem \<Rightarrow> ('s, json) promise" where
  "getToken w this =
     then_p (emit (ConsoleLog ''getToken()'')) (\<lambda>_.
     catch_p
       (then_p
          (then_p (fetch_p w (token_request this w)) (\<lambda>response. settle (json_if_ok response)))
          (\<lambda>json.
             if truthy (Some json) \<and> truthy (prop_of json ''access_token'')
                \<and> truthy (prop_of json ''resource_server_base_uri'')
             then resolve json
             else reject (Error ''missing token and/or uri'')))
       (\<lambda>err. then_p (emit (ConsoleError (''getToken() - '' @ err_message err)))
                 (\<lambda>_. reject err)))"

definition workitem_request ::
  "workitem \<Rightarrow> world \<Rightarrow> string \<Rightarrow> json option \<Rightarrow> string \<Rightarrow> string \<Rightarrow> string \<Rightarrow> string \<Rightarrow> http_request"
  where
  "workitem_request this w workItemURL token i from payload type =
     \<lparr>url = workItemURL,
      http_method = ''POST'',
      req_body = JSON_stringify w (JObj
        [(''pointOfContact'', JStr (poc this)),
         (''workItemId'', JStr i),
         (''workItemPayload'', JStr payload),
         (''workItemType'', JStr type),
         (''from'', JStr from)]),
      req_headers = [(''Content-Type'', ''application/json''),
                     (''Authorization'', ''bearer '' @ js_to_string token)]\<rparr>"

definition postWorkItem ::
  "world \<Rightarrow> workitem \<Rightarrow> string \<Rightarrow> json option \<Rightarrow> string \<Rightarrow> string \<Rightarrow> string \<Rightarrow> string \<Rightarrow>
   ('s, json option) promise" where
  "postWorkItem w this workItemURL token i from payload type =
     then_p (emit (ConsoleLog (''postWorkItem() - url: '' @ workItemURL @ '' from: '' @ from)))
       (\<lambda>_.
     catch_p
       (then_p
          (then_p (fetch_p w (workitem_request this w workItemURL token i from payload type))
             (\<lambda>response. settle (json_if_ok response)))
          (\<lambda>json. settle (get_prop (Some json) ''contactId'')))
       (\<lambda>err. then_p (emit (ConsoleError (''postWorkItem() - '' @ err_message err)))
                 (\<lambda>_. reject err)))"

definition version :: string where
  "version = ''v13.0''"

definition sendEmail ::
  "world \<Rightarrow> workitem \<Rightarrow> string \<Rightarrow> string \<Rightarrow> string \<Rightarrow> ('s, json option) promise" where
  "sendEmail w this i from payload =
     then_p (emit (ConsoleLog (''sendEmail() - id: '' @ i @ '' from: '' @ from))) (\<lambda>_.
     catch_p
       (then_p
          (then_p (getToken w this)
             (\<lambda>data.
                let token = prop_of data ''access_token'';
                    workItemURL = js_to_string (prop_of data ''resource_server_base_uri'')
                      @ ''services/'' @ version @ ''/interactions/work-items''
                in postWorkItem w this workItemURL token i from payload ''email''))
          (\<lambda>contactId. resolve contactId))
       (\<lambda>err. then_p (emit (ConsoleError (''sendEmail() - '' @ err_message err)))
                 (\<lambda>_. reject err)))"

section \<open>The main driver\<close>

definition processMessage :: "world \<Rightarrow> workitem \<Rightarrow> string \<Rightarrow> (gmail, id_pair) promise" where
  "processMessage w workItem i =
     then_p
       (then_p (getMessage w i)
          (\<lambda>msg. sendEmail w workItem (msg_id msg) (msg_from msg) (msg_payload msg)))
       (\<lambda>cid. resolve \<lparr>msgId = i, contactId = cid\<rparr>)"

text \<open>
  \<open>Promise.all\<close> over promises that have all been started: every one of them runs, and
  the result is the list of their values, or a rejection as soon as one is rejected.
  The runs are put one after the other in list order, and of several rejections the
  first in list order is taken; in the program the interleaving and the rejection that
  comes first depend on timing. No statement below depends on that choice.
\<close>

fun launch_all :: "('s, 'a) promise list \<Rightarrow> 's \<Rightarrow> (js_error + 'a) list \<times> 's \<times> event list" where
  "launch_all [] s = ([], s, [])"
| "launch_all (p # ps) s =
     (case p s of (r, s1, t1) \<Rightarrow>
        (case launch_all ps s1 of (rs, s2, t2) \<Rightarrow> (r # rs, s2, t1 @ t2)))"

fun all_fulfilled :: "(js_error + 'a) list \<Rightarrow> js_error + 'a list" where
  "all_fulfilled [] = Inr []"
| "all_fulfilled (Inl e # rs) = Inl e"
| "all_fulfilled (Inr a # rs) =
     (case all_fulfilled rs of Inl e \<Rightarrow> Inl e | Inr as \<Rightarrow> Inr (a # as))"

definition Promise_all :: "('s, 'a) promise list \<Rightarrow> ('s, 'a list) promise" where
  "Promise_all ps s = (case launch_all ps s of (rs, s', t) \<Rightarrow> (all_fulfilled rs, s', t))"

text \<open>
  The chain of the driver up to \<open>Promise.all\<close> (\<open>run\<close>), and with its two final
  handlers, which print the pairs or the error (\<open>main\<close>). \<open>msgs.forEach\<close> throws
  when \<open>msgs\<close> is \<open>undefined\<close>.
\<close>

definition batch :: "world \<Rightarrow> workitem \<Rightarrow> message_ref list option \<Rightarrow> (gmail, id_pair list) promise"
  where
  "batch w workItem msgs =
     (case msgs of
        None \<Rightarrow> reject (TypeError ''Cannot read property forEach of undefined'')
      | Some ms \<Rightarrow> Promise_all (map (\<lambda>msg. processMessage w workItem (ref_id msg)) ms))"

definition run :: "world \<Rightarrow> workitem \<Rightarrow> (gmail, id_pair list) promise" where
  "run w workItem =
     then_p (then_p (authorize w) (\<lambda>_. getMessageList w)) (\<lambda>msgs. batch w workItem msgs)"

definition main :: "world \<Rightarrow> workitem \<Rightarrow> (gmail, unit) promise" where
  "main w workItem =
     catch_p (then_p (run w workItem) (\<lambda>results. emit (ConsoleLogResults results)))
       (\<lambda>err. emit (ConsoleLogErr err))"

section \<open>Notions of the specification\<close>

text \<open>
  The words the pattern denotes: a sequence of pieces denotes the concatenations of one
  word per piece, where a piece taken once contributes one accepted character and a
  piece under \<open>+\<close> a non-empty word of accepted characters.
\<close>

fun lang :: "bool \<Rightarrow> piece list \<Rightarrow> string set" where
  "lang ic [] = {[]}"
| "lang ic (Once a # r) = {c # v | c v. accepts ic a c \<and> v \<in> lang ic r}"
| "lang ic (Plus a # r) =
     {u @ v | u v. u \<noteq> [] \<and> (\<forall>c\<in>set u. accepts ic a c) \<and> v \<in> lang ic r}"

text \<open>
  An address-shaped string: a local part, \<open>@\<close>, a domain part, a dot and a last part,
  the three parts non-empty and made of ASCII letters, digits, dots, underscores and
  hyphens.
\<close>

definition address_char :: "char \<Rightarrow> bool" where
  "address_char c =
     ((97 \<le> (of_char c :: nat) \<and> (of_char c :: nat) \<le> 122) \<or>
      (65 \<le> (of_char c :: nat) \<and> (of_char c :: nat) \<le> 90) \<or>
      (48 \<le> (of_char c :: nat) \<and> (of_char c :: nat) \<le> 57) \<or>
      c = CHR ''.'' \<or> c = CHR ''_'' \<or> c = CHR ''-'')"

definition address_shaped :: "string \<Rightarrow> bool" where
  "address_shaped x =
     (\<exists>u v t. x = u @ ''@'' @ v @ ''.'' @ t \<and> u \<noteq> [] \<and> v \<noteq> [] \<and> t \<noteq> [] \<and>
        (\<forall>c\<in>set (u @ v @ t). address_char c))"

definition has_address :: "string \<Rightarrow> bool" where
  "has_address v = (\<exists>p x q. v = p @ x @ q \<and> address_shaped x)"

text \<open>The operator prompts, the file writes and the HTTP requests of a trace.\<close>

fun questions :: "event list \<Rightarrow> string list" where
  "questions [] = []"
| "questions (Question q # t) = q # questions t"
| "questions (e # t) = questions t"

fun writes :: "event list \<Rightarrow> (string \<times> string) list" where
  "writes [] = []"
| "writes (WriteFile p c # t) = (p, c) # writes t"
| "writes (e # t) = writes t"

fun fetches :: "event list \<Rightarrow> http_request list" where
  "fetches [] = []"
| "fetches (Fetch r # t) = r # fetches t"
| "fetches (e # t) = fetches t"

fun exchanges :: "event list \<Rightarrow> (string \<times> (js_error + json)) list" where
  "exchanges [] = []"
| "exchanges (OAuthGetToken code r # t) = (code, r) # exchanges t"
| "exchanges (e # t) = exchanges t"

fun console_errors :: "event list \<Rightarrow> string list" where
  "console_errors [] = []"
| "console_errors (ConsoleError m # t) = m # console_errors t"
| "console_errors (e # t) = console_errors t"

text \<open>
  A valid credential file: a readable JSON document with an \<open>installed\<close> object that
  contains \<open>client_id\<close>, \<open>client_secret\<close> and the array \<open>redirect_uris\<close>.
\<close>

definition valid_credential_file :: "world \<Rightarrow> string \<Rightarrow> bool" where
  "valid_credential_file w path =
     (case readFile w path of
        Inl e \<Rightarrow> False
      | Inr cred \<Rightarrow>
          (case JSON_parse w cred of
             Inl e \<Rightarrow> False
           | Inr c \<Rightarrow>
               (case prop_of c ''installed'' of
                  Some (JObj inst) \<Rightarrow>
                    map_of inst ''client_id'' \<noteq> None \<and> map_of inst ''client_secret'' \<noteq> None \<and>
                    (case map_of inst ''redirect_uris'' of Some (JArr us) \<Rightarrow> True | _ \<Rightarrow> False)
                | _ \<Rightarrow> False)))"

definition token_file_absent :: "world \<Rightarrow> string \<Rightarrow> bool" where
  "token_file_absent w path =
     (case readFile w path of Inl e \<Rightarrow> err_code e = Some ''ENOENT'' | Inr r \<Rightarrow> False)"

definition token_file_holds :: "world \<Rightarrow> string \<Rightarrow> json \<Rightarrow> bool" where
  "token_file_holds w path token =
     (case readFile w path of Inl e \<Rightarrow> False | Inr r \<Rightarrow> JSON_parse w r = Inr token)"

section \<open>A sample world\<close>

text \<open>
  One concrete world, on which the statements below are run: both files present, an
  inbox of two messages, and a ticketing service that answers every request.
\<close>

definition ENOENT :: "string \<Rightarrow> js_error" where
  "ENOENT path =
     \<lparr>err_name = ''Error'', err_code = Some ''ENOENT'',
      err_message = ''ENOENT: no such file or directory, open '' @ path\<rparr>"

definition sample_credentials :: json where
  "sample_credentials =
     JObj [(''installed'', JObj [(''client_id'', JStr ''id-1''), (''client_secret'', JStr ''s3cr3t''),
                                 (''redirect_uris'', JArr [JStr ''urn:ietf:wg:oauth:2.0:oob''])])]"

definition sample_token :: json where
  "sample_token = JObj [(''access_token'', JStr ''ya29''), (''refresh_token'', JStr ''1//0g'')]"

definition sample_ticket_token :: json where
  "sample_ticket_token =
     JObj [(''access_token'', JStr ''tk-7''),
           (''resource_server_base_uri'', JStr ''https://api-c7.incontact.com/inContactAPI/'')]"

definition sample_message :: "string \<Rightarrow> message_resource" where
  "sample_message i =
     \<lparr>data_id = i,
      payload_headers =
        [\<lparr>name = ''To'', header_value = ''help@shop.example''\<rparr>,
         \<lparr>name = ''From'', header_value = CHR 0x22 # ''A B'' @ [CHR 0x22] @ '' <a@b.com>''\<rparr>],
      payload_body_data = Some ''aGVsbG8''\<rparr>"

definition sample_fetch :: "http_request \<Rightarrow> js_error + http_response" where
  "sample_fetch req =
     (if url req = ''https://api.incontact.com/InContactAuthorizationServer/Token''
      then Inr \<lparr>status = 200, response_json = Inr sample_ticket_token\<rparr>
      else Inr \<lparr>status = 200, response_json = Inr (JObj [(''contactId'', JNum 42)])\<rparr>)"

definition sample_world :: world where
  "sample_world =
     \<lparr>readFile = (\<lambda>p. if p = ''credentials.json'' then Inr ''CREDENTIALS''
                       else if p = ''token.json'' then Inr ''TOKEN'' else Inl (ENOENT p)),
      writeFile = (\<lambda>p c. None),
      JSON_parse = (\<lambda>s. if s = ''CREDENTIALS'' then Inr sample_credentials
                         else if s = ''TOKEN'' then Inr sample_token
                         else Inl \<lparr>err_name = ''SyntaxError'', err_code = None,
                                  err_message = ''Unexpected token''\<rparr>),
      JSON_stringify = (\<lambda>j. if j = sample_token then ''TOKEN'' else ''JSON''),
      rl_question = (\<lambda>q. ''4/code''),
      generateAuthUrl = (\<lambda>c. ''https://accounts.google.com/o/oauth2/v2/auth''),
      oauth_getToken = (\<lambda>c code. Inr sample_token),
      messages_get = (\<lambda>c i. Inr (sample_message i)),
      messages_list = (\<lambda>c. Inr (Some [\<lparr>ref_id = ''m1''\<rparr>, \<lparr>ref_id = ''m2''\<rparr>])),
      fetch = sample_fetch,
      atob = (\<lambda>s. if s = ''aGVsbG8'' then ''hello'' else ''''),
      btoa = (\<lambda>s. if s = ''app@vendor:key'' then ''YXBwQHZlbmRvcjprZXk='' else '''')\<rparr>"

definition sample_gmail :: gmail where
  "sample_gmail = new_Gmail ''credentials.json'' ''token.json''"

definition sample_workitem :: workitem where
  "sample_workitem = new_WorkItem sample_world ''app'' ''vendor'' ''key'' ''poc-1''"

text \<open>The same world before the first run: no token file yet.\<close>

definition first_run_world :: world where
  "first_run_world =
     sample_world\<lparr>readFile := (\<lambda>p. if p = ''credentials.json'' then Inr ''CREDENTIALS''
                                     else Inl (ENOENT p))\<rparr>"

text \<open>
  Worlds whose messages carry no \<open>From\<close> header, a \<open>From\<close> header without an address,
  and (further down) no body data.
\<close>

definition headerless_world :: world where
  "headerless_world =
     sample_world\<lparr>messages_get := (\<lambda>c i. Inr ((sample_message i)
       \<lparr>payload_headers := [\<lparr>name = ''To'', header_value = ''help@shop.example''\<rparr>]\<rparr>))\<rparr>"

definition addressless_world :: world where
  "addressless_world =
     sample_world\<lparr>messages_get := (\<lambda>c i. Inr ((sample_message i)
       \<lparr>payload_headers := [\<lparr>name = ''From'', header_value = ''undisclosed sender''\<rparr>]\<rparr>))\<rparr>"

text \<open>
  Ticketing services that refuse every request, and that answer the token request
  without the base resource URL, and that create a work item without reporting its
  contact identifier.
\<close>

definition unauthorized_world :: world where
  "unauthorized_world =
     sample_world\<lparr>fetch := (\<lambda>req. Inr \<lparr>status = 401, response_json = Inr (JObj [])\<rparr>)\<rparr>"


definition silent_world :: world where
  "silent_world =
     sample_world\<lparr>fetch := (\<lambda>req.
       Inr \<lparr>status = 201, response_json = Inr (JObj [(''status'', JStr ''created'')])\<rparr>)\<rparr>"

text \<open>
  Ticketing services that answer with success and the body \<open>null\<close>, and with success
  and no body at all, so that \<open>response.json()\<close> is rejected.
\<close>

definition null_body_world :: world where
  "null_body_world =
     sample_world\<lparr>fetch := (\<lambda>req. Inr \<lparr>status = 200, response_json = Inr JNull\<rparr>)\<rparr>"

definition empty_body_world :: world where
  "empty_body_world =
     sample_world\<lparr>fetch := (\<lambda>req.
       Inr \<lparr>status = 204,
            response_json = Inl \<lparr>err_name = ''SyntaxError'', err_code = None,
                                  err_message = ''Unexpected end of JSON input''\<rparr>\<rparr>)\<rparr>"

text \<open>
  A first run in which the provider refuses the code the operator types; a world
  without the credential file (the token file is there); and an empty inbox, for which
  the mail API leaves the \<open>messages\<close> field out.
\<close>

definition refused_code_world :: world where
  "refused_code_world =
     first_run_world\<lparr>oauth_getToken := (\<lambda>c code. Inl (Error ''invalid_grant''))\<rparr>"

definition no_credentials_world :: world where
  "no_credentials_world =
     sample_world\<lparr>readFile := (\<lambda>p. if p = ''token.json'' then Inr ''TOKEN'' else Inl (ENOENT p))\<rparr>"

definition empty_inbox_world :: world where
  "empty_inbox_world = sample_world\<lparr>messages_list := (\<lambda>c. Inr None)\<rparr>"

text \<open>A mail API that cannot deliver the second message.\<close>

definition flaky_world :: world where
  "flaky_world =
     sample_world\<lparr>messages_get := (\<lambda>c i. if i = ''m2'' then Inl (Error ''Not Found'')
                                          else Inr (sample_message i))\<rparr>"

definition bodiless_world :: world where
  "bodiless_world =
     sample_world\<lparr>messages_get := (\<lambda>c i. Inr ((sample_message i)\<lparr>payload_body_data := None\<rparr>))\<rparr>"

section \<open>Names for the steps of authorize\<close>

text \<open>
  The OAuth2 client that \<open>authorize\<close> builds from the \<open>installed\<close> object of a valid
  credential file, and the events of the interactive handshake up to the exchange.
\<close>

definition loaded_client :: "(string \<times> json) list \<Rightarrow> json list \<Rightarrow> oauth2_client" where
  "loaded_client inst us =
     new_OAuth2 (map_of inst ''client_id'') (map_of inst ''client_secret'')
       (case us of [] \<Rightarrow> None | x # _ \<Rightarrow> Some x)"

definition handshake_events :: "world \<Rightarrow> oauth2_client \<Rightarrow> event list" where
  "handshake_events w c =
     [ConsoleLog ''_getNewToken()'',
      ConsoleLog (''Authorize this app by visiting this url: '' @ generateAuthUrl w c),
      ConsoleLog ''_ask()'', Question ''Enter the code from that page here: '',
      OAuthGetToken (rl_question w ''Enter the code from that page here: '')
        (oauth_getToken w c (rl_question w ''Enter the code from that page here: ''))]"

section \<open>The matcher finds the leftmost address-shaped substring\<close>

lemma lang_PlusI:
  "u \<noteq> [] \<Longrightarrow> \<forall>c\<in>set u. accepts ic a c \<Longrightarrow> v \<in> lang ic r \<Longrightarrow> u @ v \<in> lang ic (Plus a # r)"
  by auto

lemma rmatch_sound: "rmatch ic re s = Some m \<Longrightarrow> m \<in> lang ic re \<and> (\<exists>rest. s = m @ rest)"
proof (induction ic re s arbitrary: m rule: rmatch.induct)
  case (5 ic a r c cs)
  show ?case
  proof (cases "rmatch ic (Plus a # r) cs")
    case None
    with 5 obtain m' where m': "rmatch ic r cs = Some m'" "m = c # m'" "accepts ic a c"
      by (auto split: if_splits)
    with 5 None have "m' \<in> lang ic r" "\<exists>rest. cs = m' @ rest" by auto
    then have "[c] @ m' \<in> lang ic (Plus a # r)"
      using m' by (intro lang_PlusI) auto
    with m' \<open>\<exists>rest. cs = m' @ rest\<close> show ?thesis by auto
  next
    case (Some m')
    with 5 have m: "m = c # m'" "accepts ic a c" by (auto split: if_splits)
    from 5 Some m have "m' \<in> lang ic (Plus a # r)" "\<exists>rest. cs = m' @ rest" by auto
    then obtain u v where "m' = u @ v" "u \<noteq> []" "\<forall>c\<in>set u. accepts ic a c" "v \<in> lang ic r" by auto
    then have "(c # u) @ v \<in> lang ic (Plus a # r)"
      using m by (intro lang_PlusI) auto
    with m \<open>m' = u @ v\<close> \<open>\<exists>rest. cs = m' @ rest\<close> show ?thesis by auto
  qed
qed (auto split: if_splits)

lemma rmatch_plus_complete:
  assumes r: "\<And>rest. rmatch ic r (v @ rest) \<noteq> None"
  shows "u \<noteq> [] \<Longrightarrow> \<forall>c\<in>set u. accepts ic a c \<Longrightarrow> rmatch ic (Plus a # r) (u @ v @ rest) \<noteq> None"
proof (induction u)
  case Nil then show ?case by simp
next
  case (Cons c u)
  show ?case
  proof (cases "u = []")
    case True
    with Cons r[of rest] show ?thesis by (auto split: option.splits)
  next
    case False
    with Cons show ?thesis by (auto split: option.splits)
  qed
qed

lemma rmatch_complete: "m \<in> lang ic re \<Longrightarrow> rmatch ic re (m @ rest) \<noteq> None"
proof (induction re arbitrary: m rest)
  case Nil then show ?case by simp
next
  case (Cons p r)
  show ?case
  proof (cases p)
    case (Once a)
    with Cons show ?thesis by auto
  next
    case (Plus a)
    with Cons.prems obtain u v where uv: "m = u @ v" "u \<noteq> []" "\<forall>c\<in>set u. accepts ic a c" "v \<in> lang ic r" by auto
    have "\<And>rest. rmatch ic r (v @ rest) \<noteq> None" using Cons.IH[OF uv(4)] by simp
    from rmatch_plus_complete[OF this uv(2,3)] show ?thesis using uv Plus by simp
  qed
qed

lemma of_char_eq_iff_nat: "(of_char c :: nat) = of_char d \<longleftrightarrow> c = d"
  by (metis char_of_char)

lemma of_char_literals:
  "(of_char c :: nat) = 46 \<longleftrightarrow> c = CHR ''.''"
  "(of_char c :: nat) = 95 \<longleftrightarrow> c = CHR ''_''"
  "(of_char c :: nat) = 45 \<longleftrightarrow> c = CHR ''-''"
  "(of_char c :: nat) = 64 \<longleftrightarrow> c = CHR ''@''"
  using of_char_eq_iff_nat[of c "CHR ''.''"] of_char_eq_iff_nat[of c "CHR ''_''"]
    of_char_eq_iff_nat[of c "CHR ''-''"] of_char_eq_iff_nat[of c "CHR ''@''"]
  by simp_all

lemma accepts_address_class: "accepts ic address_class c = address_char c"
proof -
  define n where "n = (of_char c :: nat)"
  have "list_ex (\<lambda>it. item_accepts ic it n)
          [Range CHR ''a'' CHR ''z'', Range CHR ''A'' CHR ''Z'', Range CHR ''0'' CHR ''9'',
                Single CHR ''.'', Single CHR ''_'', Single CHR ''-'']
        \<longleftrightarrow> (97 \<le> n \<and> n \<le> 122) \<or> (65 \<le> n \<and> n \<le> 90) \<or> (48 \<le> n \<and> n \<le> 57) \<or>
           n = 46 \<or> n = 95 \<or> n = 45"
    unfolding item_accepts_def upper_code_def lower_code_def by (cases ic) auto
  then show ?thesis
    by (simp add: address_class_def address_char_def n_def of_char_literals)
qed

lemma accepts_Lit_at: "item_accepts ic (Single CHR ''@'') (of_char c) \<longleftrightarrow> c = CHR ''@''"
  using of_char_literals(4)[of c]
  by (simp add: item_accepts_def upper_code_def lower_code_def) arith

lemma accepts_Lit_dot: "item_accepts ic (Single CHR ''.'') (of_char c) \<longleftrightarrow> c = CHR ''.''"
  using of_char_literals(1)[of c]
  by (simp add: item_accepts_def upper_code_def lower_code_def) arith

lemma lang_address_regex: "x \<in> lang ic address_regex \<longleftrightarrow> address_shaped x"
proof
  assume "x \<in> lang ic address_regex"
  then obtain u v t where "x = u @ CHR ''@'' # v @ CHR ''.'' # t" "u \<noteq> []" "v \<noteq> []" "t \<noteq> []"
    "\<forall>c\<in>set u. address_char c" "\<forall>c\<in>set v. address_char c" "\<forall>c\<in>set t. address_char c"
    by (auto simp: address_regex_def accepts_address_class accepts_Lit_at accepts_Lit_dot)
  then show "address_shaped x"
    unfolding address_shaped_def by (intro exI[of _ u] exI[of _ v] exI[of _ t]) auto
next
  assume "address_shaped x"
  then obtain u v t where x: "x = u @ ''@'' @ v @ ''.'' @ t" "u \<noteq> []" "v \<noteq> []" "t \<noteq> []"
    "\<forall>c\<in>set (u @ v @ t). address_char c"
    unfolding address_shaped_def by blast
  have "t @ [] \<in> lang ic [Plus address_class]"
    using x by (intro lang_PlusI) (auto simp: accepts_address_class)
  then have "CHR ''.'' # t \<in> lang ic [Once (Lit CHR ''.''), Plus address_class]"
    by (simp add: accepts_Lit_dot)
  then have "v @ CHR ''.'' # t \<in> lang ic [Plus address_class, Once (Lit CHR ''.''), Plus address_class]"
    using x by (intro lang_PlusI) (auto simp: accepts_address_class)
  then have "CHR ''@'' # v @ CHR ''.'' # t
      \<in> lang ic [Once (Lit CHR ''@''), Plus address_class, Once (Lit CHR ''.''), Plus address_class]"
    by (simp add: accepts_Lit_at)
  then have "u @ CHR ''@'' # v @ CHR ''.'' # t \<in> lang ic address_regex"
    unfolding address_regex_def using x by (intro lang_PlusI) (auto simp: accepts_address_class)
  with x show "x \<in> lang ic address_regex" by simp
qed

lemma match_all_Nil_iff:
  "match_all ic re s = [] \<longleftrightarrow> (\<forall>k\<le>length s. rmatch ic re (drop k s) = None)"
proof (induction s)
  case Nil
  show ?case by (subst match_all.simps) (simp split: option.splits)
next
  case (Cons c cs)
  have "match_all ic re (c # cs) = [] \<longleftrightarrow> rmatch ic re (c # cs) = None \<and> match_all ic re cs = []"
    by (subst match_all.simps) (simp split: option.splits)
  also have "\<dots> \<longleftrightarrow> rmatch ic re (c # cs) = None \<and> (\<forall>k\<le>length cs. rmatch ic re (drop k cs) = None)"
    using Cons.IH by simp
  also have "\<dots> \<longleftrightarrow> (\<forall>k\<le>length (c # cs). rmatch ic re (drop k (c # cs)) = None)"
  proof
    assume a: "rmatch ic re (c # cs) = None \<and> (\<forall>k\<le>length cs. rmatch ic re (drop k cs) = None)"
    show "\<forall>k\<le>length (c # cs). rmatch ic re (drop k (c # cs)) = None"
    proof (intro allI impI)
      fix k assume "k \<le> length (c # cs)"
      with a show "rmatch ic re (drop k (c # cs)) = None" by (cases k) auto
    qed
  next
    assume a: "\<forall>k\<le>length (c # cs). rmatch ic re (drop k (c # cs)) = None"
    from a[rule_format, of 0] have "rmatch ic re (c # cs) = None" by simp
    moreover have "\<forall>k\<le>length cs. rmatch ic re (drop k cs) = None"
    proof (intro allI impI)
      fix k assume "k \<le> length cs"
      with a[rule_format, of "Suc k"] show "rmatch ic re (drop k cs) = None" by simp
    qed
    ultimately show "rmatch ic re (c # cs) = None \<and> (\<forall>k\<le>length cs. rmatch ic re (drop k cs) = None)" ..
  qed
  finally show ?case .
qed

lemma match_all_hd:
  "match_all ic re s \<noteq> [] \<Longrightarrow>
     \<exists>pre post. s = pre @ hd (match_all ic re s) @ post \<and>
       rmatch ic re (hd (match_all ic re s) @ post) = Some (hd (match_all ic re s)) \<and>
       (\<forall>k<length pre. rmatch ic re (drop k s) = None)"
proof (induction s)
  case Nil
  then obtain m where m: "rmatch ic re [] = Some m" "match_all ic re [] = [m]"
    by (subst (asm) match_all.simps) (auto split: option.splits simp: match_all.simps)
  from rmatch_sound[OF m(1)] have "m = []" by simp
  with m show ?case by simp
next
  case (Cons c cs)
  show ?case
  proof (cases "rmatch ic re (c # cs)")
    case (Some m)
    then have hd: "hd (match_all ic re (c # cs)) = m"
      by (subst match_all.simps) simp
    from rmatch_sound[OF Some] obtain rest where "c # cs = m @ rest" by blast
    with Some hd show ?thesis by (intro exI[of _ "[]"] exI[of _ rest]) simp
  next
    case None
    then have eq: "match_all ic re (c # cs) = match_all ic re cs"
      by (subst match_all.simps) simp
    with Cons obtain pre post where pp: "cs = pre @ hd (match_all ic re cs) @ post"
       "rmatch ic re (hd (match_all ic re cs) @ post) = Some (hd (match_all ic re cs))"
       "\<forall>k<length pre. rmatch ic re (drop k cs) = None" by auto
    have "\<forall>k<length (c # pre). rmatch ic re (drop k (c # cs)) = None"
    proof (intro allI impI)
      fix k assume "k < length (c # pre)"
      with pp(3) None show "rmatch ic re (drop k (c # cs)) = None" by (cases k) auto
    qed
    with pp(1,2) eq show ?thesis by (intro exI[of _ "c # pre"] exI[of _ post]) simp
  qed
qed

lemma first_address_none:
  assumes "\<not> has_address v"
  shows "first_address v = []"
proof -
  have "match_all True address_regex v = []"
  proof (rule ccontr)
    assume "match_all True address_regex v \<noteq> []"
    from match_all_hd[OF this] obtain pre post where
      "v = pre @ hd (match_all True address_regex v) @ post"
      "rmatch True address_regex (hd (match_all True address_regex v) @ post)
         = Some (hd (match_all True address_regex v))" by blast
    moreover from rmatch_sound[OF this(2)] have "address_shaped (hd (match_all True address_regex v))"
      by (simp add: lang_address_regex)
    ultimately show False using assms unfolding has_address_def by blast
  qed
  then show ?thesis by (simp add: first_address_def string_match_def)
qed

lemma rmatch_single_plus: "accepts ic a c \<Longrightarrow> rmatch ic [Plus a] (c # cs) \<noteq> None"
  by (simp split: option.splits)

lemma rmatch_last_plus_maximal:
  "re \<noteq> [] \<Longrightarrow> last re = Plus a \<Longrightarrow> rmatch ic re s = Some m \<Longrightarrow>
     drop (length m) s = [] \<or> \<not> accepts ic a (hd (drop (length m) s))"
proof (induction ic re s arbitrary: m rule: rmatch.induct)
  case (3 ic a' r c cs)
  then obtain m' where m': "accepts ic a' c" "rmatch ic r cs = Some m'" "m = c # m'"
    by (auto split: if_splits)
  from "3.prems"(1,2) have "r \<noteq> []" "last r = Plus a" by (auto split: if_splits)
  from "3.IH"[OF m'(1) this m'(2)] m'(3) show ?case by simp
next
  case (5 ic a' r c cs)
  from "5.prems"(3) have acc: "accepts ic a' c" by (auto split: if_splits)
  show ?case
  proof (cases "rmatch ic (Plus a' # r) cs")
    case (Some m')
    with "5.prems"(3) acc have "m = c # m'" by simp
    with "5.IH"(1)[OF acc _ "5.prems"(2) Some] show ?thesis by simp
  next
    case None
    with "5.prems"(3) acc obtain m' where m': "rmatch ic r cs = Some m'" "m = c # m'" by auto
    show ?thesis
    proof (cases "r = []")
      case True
      with "5.prems"(2) have a: "a' = a" by simp
      from True m' have m: "m = [c]" by simp
      show ?thesis
      proof (cases cs)
        case Nil
        with m show ?thesis by simp
      next
        case (Cons c' cs')
        with None True a rmatch_single_plus[of ic a c' cs'] have "\<not> accepts ic a c'" by auto
        with Cons m show ?thesis by simp
      qed
    next
      case False
      with "5.prems"(2) have "last r = Plus a" by simp
      from "5.IH"(2)[OF acc None False this m'(1)] m'(2) show ?thesis by simp
    qed
  qed
qed simp_all

lemma first_occurrence_unique:
  "a \<notin> set xs \<Longrightarrow> a \<notin> set ys \<Longrightarrow> xs @ a # r = ys @ a # r' \<Longrightarrow> xs = ys \<and> r = r'"
proof (induction xs arbitrary: ys)
  case Nil
  then show ?case by (cases ys) auto
next
  case (Cons x xs)
  then show ?case by (cases ys) auto
qed

lemma not_address_char_at: "\<not> address_char CHR ''@''"
  by (simp add: address_char_def)

lemma first_address_longest:
  assumes "v = pre @ first_address v @ post" "address_shaped (first_address v)"
    "rmatch True address_regex (first_address v @ post) = Some (first_address v)"
    "v = pre @ x @ q" "address_shaped x"
  shows "length x \<le> length (first_address v)"
proof (rule ccontr)
  let ?f = "first_address v"
  assume "\<not> length x \<le> length ?f"
  then have len: "length ?f < length x" by simp
  from assms(1,4) have eq: "?f @ post = x @ q" by simp
  with len obtain y where y: "x = ?f @ y" "y \<noteq> []" "post = y @ q"
    by (auto simp: append_eq_append_conv2)
  have "address_regex \<noteq> []" "last address_regex = Plus address_class"
    by (simp_all add: address_regex_def)
  from rmatch_last_plus_maximal[OF this assms(3)] y
  have nc: "\<not> address_char (hd y)" by (simp add: accepts_address_class)
  from assms(2) obtain u' v' t' where f: "?f = u' @ ''@'' @ v' @ ''.'' @ t'"
    "\<forall>c\<in>set (u' @ v' @ t'). address_char c" unfolding address_shaped_def by blast
  from assms(5) obtain u w t where x: "x = u @ ''@'' @ w @ ''.'' @ t"
    "\<forall>c\<in>set (u @ w @ t). address_char c" unfolding address_shaped_def by blast
  have notin: "CHR ''@'' \<notin> set u'" "CHR ''@'' \<notin> set u"
    using f(2) x(2) not_address_char_at by auto
  from y(1) f(1) x(1) have "u' @ CHR ''@'' # (v' @ ''.'' @ t' @ y) = u @ CHR ''@'' # (w @ ''.'' @ t)"
    by simp
  from first_occurrence_unique[OF notin this]
  have "v' @ ''.'' @ t' @ y = w @ ''.'' @ t"
    by simp
  then have "set y \<subseteq> set (w @ ''.'' @ t)"
    by (metis Un_upper2 set_append subset_trans)
  with y(2) have "hd y \<in> set (w @ ''.'' @ t)" by (cases y) auto
  with x(2) have "address_char (hd y)" by (auto simp: address_char_def)
  with nc show False by simp
qed

lemma first_address_some:
  assumes "v = p @ x @ q" "address_shaped x"
  shows "\<exists>pre post. v = pre @ first_address v @ post \<and> address_shaped (first_address v) \<and>
           (\<forall>p' x' q'. v = p' @ x' @ q' \<and> address_shaped x' \<longrightarrow> length pre \<le> length p') \<and>
           (\<forall>x' q'. v = pre @ x' @ q' \<and> address_shaped x'
              \<longrightarrow> length x' \<le> length (first_address v))"
proof -
  have found: "rmatch True address_regex (drop (length p') v) \<noteq> None"
    if "v = p' @ x' @ q'" "address_shaped x'" for p' x' q'
    using rmatch_complete[of x' True address_regex q'] that by (simp add: lang_address_regex)
  have "match_all True address_regex v \<noteq> []"
    using found[OF assms] assms(1) by (auto simp: match_all_Nil_iff intro!: exI[of _ "length p"])
  then have fa: "first_address v = hd (match_all True address_regex v)"
    by (auto simp: first_address_def string_match_def split: list.splits)
  from match_all_hd[OF \<open>match_all True address_regex v \<noteq> []\<close>] obtain pre post where pp:
    "v = pre @ first_address v @ post"
    "rmatch True address_regex (first_address v @ post) = Some (first_address v)"
    "\<forall>k<length pre. rmatch True address_regex (drop k v) = None"
    unfolding fa by blast
  from rmatch_sound[OF pp(2)] have "address_shaped (first_address v)"
    by (simp add: lang_address_regex)
  moreover have "\<forall>p' x' q'. v = p' @ x' @ q' \<and> address_shaped x' \<longrightarrow> length pre \<le> length p'"
  proof (intro allI impI, elim conjE)
    fix p' x' q' assume a: "v = p' @ x' @ q'" "address_shaped x'"
    show "length pre \<le> length p'"
    proof (rule ccontr)
      assume "\<not> length pre \<le> length p'"
      then have "rmatch True address_regex (drop (length p') v) = None" using pp(3) by simp
      with found[OF a] show False by simp
    qed
  qed
  moreover have "\<forall>x' q'. v = pre @ x' @ q' \<and> address_shaped x'
                    \<longrightarrow> length x' \<le> length (first_address v)"
    using first_address_longest[OF pp(1) \<open>address_shaped (first_address v)\<close> pp(2)] by blast
  ultimately show ?thesis using pp(1) by blast
qed

lemma address_shaped_nonempty: "address_shaped x \<Longrightarrow> x \<noteq> []"
  by (auto simp: address_shaped_def)

lemma first_address_empty_iff: "first_address v = [] \<longleftrightarrow> \<not> has_address v"
proof
  assume e: "first_address v = []"
  show "\<not> has_address v"
  proof
    assume "has_address v"
    then obtain p x q where "v = p @ x @ q" "address_shaped x" unfolding has_address_def by blast
    from first_address_some[OF this] have "address_shaped (first_address v)" by blast
    with e show False by (simp add: address_shaped_nonempty)
  qed
qed (rule first_address_none)

section \<open>getMessage\<close>

lemmas promise_defs =
  then_p_def catch_p_def emit_def settle_def reject_def resolve_def outcome_def final_state_def
  trace_def

lemma getMessage_outcome:
  "outcome (getMessage w i g) =
     (case messages_get w (oAuth2Client g) i of Inl e \<Rightarrow> Inl e | Inr res \<Rightarrow> getMessage_then w res)"
  by (simp add: getMessage_def promise_defs split: sum.splits prod.splits)

lemma getMessage_state: "final_state (getMessage w i g) = g"
  by (simp add: getMessage_def promise_defs split: sum.splits prod.splits)

lemma sample_messages_get:
  "messages_get sample_world (oAuth2Client sample_gmail) ''m1'' = Inr (sample_message ''m1'')"
  by (simp add: sample_world_def)

lemma sample_find_From:
  "find (\<lambda>x. name x = ''From'') (payload_headers (sample_message ''m1''))
     = Some \<lparr>name = ''From'', header_value = CHR 0x22 # ''A B'' @ [CHR 0x22] @ '' <a@b.com>''\<rparr>"
  by (simp add: sample_message_def)

lemma getMessage_sample_from:
  "outcome (getMessage sample_world ''m1'' sample_gmail) = Inr m \<Longrightarrow> msg_from m = ''a@b.com''"
proof -
  have "first_address (CHR 0x22 # ''A B'' @ [CHR 0x22] @ '' <a@b.com>'') = ''a@b.com''"
    unfolding first_address_def string_match_def by code_simp
  moreover assume "outcome (getMessage sample_world ''m1'' sample_gmail) = Inr m"
  ultimately show ?thesis
    by (auto simp: getMessage_outcome sample_messages_get getMessage_then_def sample_message_def
        Let_def)
qed

text \<open>
  Claim C4. For a message that \<open>getMessage\<close> returns: when the body data field of the
  fetched message is present (and not the empty string), the payload is the decoder
  \<open>atob\<close> applied to it; when the field is absent or empty, the payload is the empty
  string.
\<close>

theorem getMessage_payload:
  assumes "messages_get w (oAuth2Client g) i = Inr res"
      and "outcome (getMessage w i g) = Inr m"
    shows "(\<forall>d. payload_body_data res = Some d \<and> d \<noteq> [] \<longrightarrow> msg_payload m = atob w d) \<and>
           (payload_body_data res = None \<or> payload_body_data res = Some [] \<longrightarrow> msg_payload m = [])"
  using assms
  by (auto simp: getMessage_outcome getMessage_then_def Let_def split: option.splits)

theorem getMessage_payload_witness:
  "messages_get sample_world (oAuth2Client sample_gmail) ''m1'' = Inr (sample_message ''m1'') \<and>
   payload_body_data (sample_message ''m1'') = Some ''aGVsbG8'' \<and>
   (\<exists>m. outcome (getMessage sample_world ''m1'' sample_gmail) = Inr m \<and> msg_payload m = ''hello'') \<and>
   messages_get bodiless_world (oAuth2Client sample_gmail) ''m1''
     = Inr ((sample_message ''m1'')\<lparr>payload_body_data := None\<rparr>) \<and>
   (\<exists>m. outcome (getMessage bodiless_world ''m1'' sample_gmail) = Inr m \<and> msg_payload m = [])"
proof -
  note a = sample_messages_get
  obtain m where m: "outcome (getMessage sample_world ''m1'' sample_gmail) = Inr m"
    by (simp add: getMessage_outcome a getMessage_then_def sample_message_def Let_def)
  from getMessage_payload[OF a m] have "msg_payload m = atob sample_world ''aGVsbG8''"
    by (simp add: sample_message_def)
  then have 1: "msg_payload m = ''hello''" by (simp add: sample_world_def)
  have b: "messages_get bodiless_world (oAuth2Client sample_gmail) ''m1''
     = Inr ((sample_message ''m1'')\<lparr>payload_body_data := None\<rparr>)"
    by (simp add: bodiless_world_def sample_world_def)
  obtain m' where m': "outcome (getMessage bodiless_world ''m1'' sample_gmail) = Inr m'"
    by (simp add: getMessage_outcome b getMessage_then_def sample_message_def Let_def)
  from getMessage_payload[OF b m'] have 2: "msg_payload m' = []" by simp
  have "payload_body_data (sample_message ''m1'') = Some ''aGVsbG8''"
    by (simp add: sample_message_def)
  with a b m m' 1 2 show ?thesis by blast
qed

text \<open>
  Claim C6. For a message with a \<open>From\<close> header, \<open>getMessage\<close> returns a message whose
  \<open>from\<close> is the first match: when the header value has an address-shaped substring,
  \<open>from\<close> is an address-shaped substring of it, it starts at the leftmost position
  where one starts, and it is the longest one starting there. When the header value has
  no address-shaped substring, \<open>from\<close> is the empty string.
\<close>

theorem getMessage_from:
  assumes "messages_get w (oAuth2Client g) i = Inr res"
      and "find (\<lambda>x. name x = ''From'') (payload_headers res) = Some h"
    shows "\<exists>m. outcome (getMessage w i g) = Inr m \<and>
             (if has_address (header_value h)
              then \<exists>pre post.
                     header_value h = pre @ msg_from m @ post \<and> address_shaped (msg_from m) \<and>
                     (\<forall>p x q. header_value h = p @ x @ q \<and> address_shaped x
                        \<longrightarrow> length pre \<le> length p) \<and>
                     (\<forall>x q. header_value h = pre @ x @ q \<and> address_shaped x
                        \<longrightarrow> length x \<le> length (msg_from m))
              else msg_from m = [])"
proof -
  obtain m where m: "outcome (getMessage w i g) = Inr m" "msg_from m = first_address (header_value h)"
    using assms by (simp add: getMessage_outcome getMessage_then_def Let_def)
  show ?thesis
  proof (cases "has_address (header_value h)")
    case True
    then obtain p x q where "header_value h = p @ x @ q" "address_shaped x"
      unfolding has_address_def by blast
    from first_address_some[OF this] True m show ?thesis by auto
  next
    case False
    with first_address_none[OF False] m show ?thesis by auto
  qed
qed

lemma sample_address_shaped: "address_shaped ''a@b.com''"
  unfolding address_shaped_def
  by (intro exI[of _ "''a''"] exI[of _ "''b''"] exI[of _ "''com''"]) (simp add: address_char_def)

lemma sample_has_address: "has_address (CHR 0x22 # ''A B'' @ [CHR 0x22] @ '' <a@b.com>'')"
  unfolding has_address_def
  using sample_address_shaped
  by (intro exI[of _ "CHR 0x22 # ''A B'' @ [CHR 0x22] @ '' <''"] exI[of _ "''a@b.com''"] exI[of _ "''>''"]) simp

theorem getMessage_from_witness:
  "messages_get sample_world (oAuth2Client sample_gmail) ''m1'' = Inr (sample_message ''m1'') \<and>
   find (\<lambda>x. name x = ''From'') (payload_headers (sample_message ''m1''))
     = Some \<lparr>name = ''From'', header_value = CHR 0x22 # ''A B'' @ [CHR 0x22] @ '' <a@b.com>''\<rparr> \<and>
   (\<exists>m. outcome (getMessage sample_world ''m1'' sample_gmail) = Inr m \<and>
        msg_from m = ''a@b.com'' \<and> address_shaped (msg_from m)) \<and>
   messages_get addressless_world (oAuth2Client sample_gmail) ''m1''
     = Inr ((sample_message ''m1'')
         \<lparr>payload_headers := [\<lparr>name = ''From'', header_value = ''undisclosed sender''\<rparr>]\<rparr>) \<and>
   (\<exists>m. outcome (getMessage addressless_world ''m1'' sample_gmail) = Inr m \<and> msg_from m = [])"
proof -
  from getMessage_from[OF sample_messages_get sample_find_From] sample_has_address
  obtain m where m: "outcome (getMessage sample_world ''m1'' sample_gmail) = Inr m"
    "address_shaped (msg_from m)" by auto
  have b: "messages_get addressless_world (oAuth2Client sample_gmail) ''m1''
     = Inr ((sample_message ''m1'')
         \<lparr>payload_headers := [\<lparr>name = ''From'', header_value = ''undisclosed sender''\<rparr>]\<rparr>)"
    by (simp add: addressless_world_def sample_world_def)
  have "first_address ''undisclosed sender'' = []"
    unfolding first_address_def string_match_def by code_simp
  then have "\<not> has_address ''undisclosed sender''" by (simp add: first_address_empty_iff)
  with getMessage_from[OF b, of "\<lparr>name = ''From'', header_value = ''undisclosed sender''\<rparr>"]
  have "\<exists>m. outcome (getMessage addressless_world ''m1'' sample_gmail) = Inr m \<and> msg_from m = []"
    by simp
  with m getMessage_sample_from[OF m(1)] sample_messages_get sample_find_From b show ?thesis
    by blast
qed

text \<open>
  Claim C10. When the header list of the fetched message has no entry named \<open>From\<close>,
  \<open>getMessage\<close> fails with a \<open>TypeError\<close>; and whenever it returns a message with an
  empty \<open>from\<close>, a \<open>From\<close> header exists and its value has no address-shaped
  substring.
\<close>

theorem getMessage_without_From:
  assumes "messages_get w (oAuth2Client g) i = Inr res"
    shows "(find (\<lambda>x. name x = ''From'') (payload_headers res) = None \<longrightarrow>
              (\<exists>msg. outcome (getMessage w i g) = Inl (TypeError msg))) \<and>
           (\<forall>m. outcome (getMessage w i g) = Inr m \<and> msg_from m = [] \<longrightarrow>
              (\<exists>h. find (\<lambda>x. name x = ''From'') (payload_headers res) = Some h \<and>
                   \<not> has_address (header_value h)))"
  using assms
  by (auto simp: getMessage_outcome getMessage_then_def Let_def first_address_empty_iff
      split: option.splits)

theorem getMessage_without_From_witness:
  "messages_get headerless_world (oAuth2Client sample_gmail) ''m1''
     = Inr ((sample_message ''m1'')\<lparr>payload_headers := [\<lparr>name = ''To'', header_value = ''help@shop.example''\<rparr>]\<rparr>) \<and>
   (\<exists>msg. outcome (getMessage headerless_world ''m1'' sample_gmail) = Inl (TypeError msg)) \<and>
   messages_get addressless_world (oAuth2Client sample_gmail) ''m1''
     = Inr ((sample_message ''m1'')\<lparr>payload_headers := [\<lparr>name = ''From'', header_value = ''undisclosed sender''\<rparr>]\<rparr>) \<and>
   (\<exists>m. outcome (getMessage addressless_world ''m1'' sample_gmail) = Inr m \<and> msg_from m = []) \<and>
   \<not> has_address ''undisclosed sender''"
proof -
  have a: "messages_get headerless_world (oAuth2Client sample_gmail) ''m1''
     = Inr ((sample_message ''m1'')\<lparr>payload_headers := [\<lparr>name = ''To'', header_value = ''help@shop.example''\<rparr>]\<rparr>)"
    by (simp add: headerless_world_def sample_world_def)
  have b: "messages_get addressless_world (oAuth2Client sample_gmail) ''m1''
     = Inr ((sample_message ''m1'')\<lparr>payload_headers := [\<lparr>name = ''From'', header_value = ''undisclosed sender''\<rparr>]\<rparr>)"
    by (simp add: addressless_world_def sample_world_def)
  have "first_address ''undisclosed sender'' = []"
    unfolding first_address_def string_match_def by code_simp
  then obtain m where m: "outcome (getMessage addressless_world ''m1'' sample_gmail) = Inr m"
    "msg_from m = []"
    by (simp add: getMessage_outcome b getMessage_then_def Let_def)
  with getMessage_without_From[OF b] have "\<not> has_address ''undisclosed sender''"
    by auto
  with getMessage_without_From[OF a] a b m show ?thesis by auto
qed

section \<open>workitem.js: getToken, postWorkItem, sendEmail\<close>

lemma getToken_run:
  "getToken w this s =
     (case fetch w (token_request this w) of
        Inl e \<Rightarrow> (Inl e, s, [ConsoleLog ''getToken()'', Fetch (token_request this w),
                     ConsoleError (''getToken() - '' @ err_message e)])
      | Inr response \<Rightarrow>
          (case json_if_ok response of
             Inl e \<Rightarrow> (Inl e, s, [ConsoleLog ''getToken()'', Fetch (token_request this w),
                          ConsoleError (''getToken() - '' @ err_message e)])
           | Inr json \<Rightarrow>
               if truthy (Some json) \<and> truthy (prop_of json ''access_token'')
                  \<and> truthy (prop_of json ''resource_server_base_uri'')
               then (Inr json, s, [ConsoleLog ''getToken()'', Fetch (token_request this w)])
               else (Inl (Error ''missing token and/or uri''), s,
                     [ConsoleLog ''getToken()'', Fetch (token_request this w),
                      ConsoleError (''getToken() - '' @ ''missing token and/or uri'')])))"
  by (simp add: getToken_def fetch_p_def promise_defs Error_def split: sum.splits)



lemma postWorkItem_run:
  "postWorkItem w this workItemURL token i from payload type s =
     (let req = workitem_request this w workItemURL token i from payload type;
          log = ConsoleLog (''postWorkItem() - url: '' @ workItemURL @ '' from: '' @ from)
      in case fetch w req of
        Inl e \<Rightarrow> (Inl e, s, [log, Fetch req, ConsoleError (''postWorkItem() - '' @ err_message e)])
      | Inr response \<Rightarrow>
          (case json_if_ok response of
             Inl e \<Rightarrow> (Inl e, s, [log, Fetch req, ConsoleError (''postWorkItem() - '' @ err_message e)])
           | Inr json \<Rightarrow>
               (case get_prop (Some json) ''contactId'' of
                  Inl e \<Rightarrow> (Inl e, s, [log, Fetch req,
                               ConsoleError (''postWorkItem() - '' @ err_message e)])
                | Inr cid \<Rightarrow> (Inr cid, s, [log, Fetch req]))))"
  by (simp add: postWorkItem_def fetch_p_def promise_defs Let_def split: sum.splits)

text \<open>
  Claim C8, as amended. \<open>postWorkItem\<close> fails with the error
  \<open>response status: <status>\<close> when the status of the response is outside 200 to 299.
  On a successful response whose body is a JSON value other than \<open>null\<close> it returns the
  \<open>contactId\<close> field of the body as it is, and \<open>undefined\<close>, not an error, when the
  body is an object without that field. On a successful response whose body is \<open>null\<close>
  it fails with the \<open>TypeError\<close> of the property read, and on a successful response
  whose body is not JSON it fails with the error of \<open>response.json()\<close>.
\<close>

theorem postWorkItem_contract:
  "(\<forall>response.
      fetch w (workitem_request this w workItemURL token i from payload type) = Inr response
      \<and> (status response < 200 \<or> 300 \<le> status response) \<longrightarrow>
      outcome (postWorkItem w this workItemURL token i from payload type s)
        = Inl (Error (''response status: '' @ show_nat (status response)))) \<and>
   (\<forall>response json.
      fetch w (workitem_request this w workItemURL token i from payload type) = Inr response
      \<and> 200 \<le> status response \<and> status response < 300
      \<and> response_json response = Inr json \<and> json \<noteq> JNull \<longrightarrow>
      outcome (postWorkItem w this workItemURL token i from payload type s)
        = Inr (prop_of json ''contactId'')) \<and>
   (\<forall>response fields.
      fetch w (workitem_request this w workItemURL token i from payload type) = Inr response
      \<and> 200 \<le> status response \<and> status response < 300
      \<and> response_json response = Inr (JObj fields) \<and> ''contactId'' \<notin> fst ` set fields \<longrightarrow>
      outcome (postWorkItem w this workItemURL token i from payload type s) = Inr None) \<and>
   (\<forall>response.
      fetch w (workitem_request this w workItemURL token i from payload type) = Inr response
      \<and> 200 \<le> status response \<and> status response < 300
      \<and> response_json response = Inr JNull \<longrightarrow>
      (\<exists>msg. outcome (postWorkItem w this workItemURL token i from payload type s)
         = Inl (TypeError msg))) \<and>
   (\<forall>response e.
      fetch w (workitem_request this w workItemURL token i from payload type) = Inr response
      \<and> 200 \<le> status response \<and> status response < 300
      \<and> response_json response = Inl e \<longrightarrow>
      outcome (postWorkItem w this workItemURL token i from payload type s) = Inl e)"
proof -
  let ?req = "workitem_request this w workItemURL token i from payload type"
  let ?r = "postWorkItem w this workItemURL token i from payload type s"
  have 1: "outcome ?r = Inl (Error (''response status: '' @ show_nat (status response)))"
    if "fetch w ?req = Inr response" "status response < 200 \<or> 300 \<le> status response"
    for response
    using that by (auto simp: postWorkItem_run outcome_def json_if_ok_def response_ok_def Let_def)
  have 2: "outcome ?r = Inr (prop_of json ''contactId'')"
    if "fetch w ?req = Inr response" "200 \<le> status response" "status response < 300"
      "response_json response = Inr json" "json \<noteq> JNull"
    for response json
    using that
    by (cases json) (simp_all add: postWorkItem_run outcome_def json_if_ok_def response_ok_def Let_def)
  have 3: "outcome ?r = Inr None"
    if "fetch w ?req = Inr response" "200 \<le> status response" "status response < 300"
      "response_json response = Inr (JObj fields)" "''contactId'' \<notin> fst ` set fields"
    for response fields
    using 2[OF that(1-4)] that(5) by (simp add: map_of_eq_None_iff)
  have 4: "\<exists>msg. outcome ?r = Inl (TypeError msg)"
    if "fetch w ?req = Inr response" "200 \<le> status response" "status response < 300"
      "response_json response = Inr JNull"
    for response
    using that
    by (intro exI[of _ "''Cannot read property contactId of null''"])
       (simp add: postWorkItem_run outcome_def json_if_ok_def response_ok_def Let_def)
  have 5: "outcome ?r = Inl e"
    if "fetch w ?req = Inr response" "200 \<le> status response" "status response < 300"
      "response_json response = Inl e"
    for response e
    using that
    by (simp add: postWorkItem_run outcome_def json_if_ok_def response_ok_def Let_def)
  from 1 2 3 4 5 show ?thesis by blast
qed

lemma sendEmail_fetches:
  assumes "outcome (getToken w this s) = Inr data"
  shows "fetches (trace (sendEmail w this i from payload s)) =
           [token_request this w,
            workitem_request this w
              (js_to_string (prop_of data ''resource_server_base_uri'') @ ''services/'' @ version
                 @ ''/interactions/work-items'')
              (prop_of data ''access_token'') i from payload ''email'']"
proof -
  from assms have g: "getToken w this s = (Inr data, s, [ConsoleLog ''getToken()'', Fetch (token_request this w)])"
    by (auto simp: getToken_run outcome_def split: sum.splits if_splits)
  show ?thesis
    by (simp add: sendEmail_def then_p_def catch_p_def emit_def resolve_def reject_def g
        postWorkItem_run Let_def trace_def
        split: sum.splits)
qed

text \<open>
  Claim C5, as amended. When \<open>getToken\<close> has returned a ticket token whose base
  resource URI is the string \<open>baseUrl\<close>, \<open>sendEmail\<close> sends two requests, both POST:
  the token request, and the work item to \<open>baseUrl\<close> immediately followed by
  \<open>services/v13.0/interactions/work-items\<close>. No slash is put in between.
\<close>

theorem sendEmail_posts_to:
  assumes "outcome (getToken w this s) = Inr data"
      and "prop_of data ''resource_server_base_uri'' = Some (JStr baseUrl)"
    shows "map url (fetches (trace (sendEmail w this i from payload s)))
             = [''https://api.incontact.com/InContactAuthorizationServer/Token'',
                baseUrl @ ''services/v13.0/interactions/work-items''] \<and>
           map http_method (fetches (trace (sendEmail w this i from payload s)))
             = [''POST'', ''POST'']"
  using assms(2)
  by (simp add: sendEmail_fetches[OF assms(1)] token_request_def workitem_request_def
      js_to_string_def version_def)

lemma show_nat_401: "show_nat 401 = ''401''"
  by (simp add: show_nat.simps)


theorem postWorkItem_contract_witness:
  "fetch unauthorized_world (workitem_request sample_workitem unauthorized_world ''https://t.example/work-items''
      (Some (JStr ''tk-7'')) ''m1'' ''a@b.com'' ''hello'' ''email'')
     = Inr \<lparr>status = 401, response_json = Inr (JObj [])\<rparr> \<and>
   outcome (postWorkItem unauthorized_world sample_workitem ''https://t.example/work-items''
      (Some (JStr ''tk-7'')) ''m1'' ''a@b.com'' ''hello'' ''email'' ())
     = Inl (Error ''response status: 401'') \<and>
   fetch sample_world (workitem_request sample_workitem sample_world ''https://t.example/work-items''
      (Some (JStr ''tk-7'')) ''m1'' ''a@b.com'' ''hello'' ''email'')
     = Inr \<lparr>status = 200, response_json = Inr (JObj [(''contactId'', JNum 42)])\<rparr> \<and>
   outcome (postWorkItem sample_world sample_workitem ''https://t.example/work-items''
      (Some (JStr ''tk-7'')) ''m1'' ''a@b.com'' ''hello'' ''email'' ())
     = Inr (Some (JNum 42)) \<and>
   fetch silent_world (workitem_request sample_workitem silent_world ''https://t.example/work-items''
      (Some (JStr ''tk-7'')) ''m1'' ''a@b.com'' ''hello'' ''email'')
     = Inr \<lparr>status = 201, response_json = Inr (JObj [(''status'', JStr ''created'')])\<rparr> \<and>
   outcome (postWorkItem silent_world sample_workitem ''https://t.example/work-items''
      (Some (JStr ''tk-7'')) ''m1'' ''a@b.com'' ''hello'' ''email'' ())
     = Inr None \<and>
   fetch null_body_world (workitem_request sample_workitem null_body_world
      ''https://t.example/work-items'' (Some (JStr ''tk-7'')) ''m1'' ''a@b.com'' ''hello'' ''email'')
     = Inr \<lparr>status = 200, response_json = Inr JNull\<rparr> \<and>
   (\<exists>msg. outcome (postWorkItem null_body_world sample_workitem ''https://t.example/work-items''
      (Some (JStr ''tk-7'')) ''m1'' ''a@b.com'' ''hello'' ''email'' ())
     = Inl (TypeError msg)) \<and>
   (\<exists>e. fetch empty_body_world (workitem_request sample_workitem empty_body_world
      ''https://t.example/work-items'' (Some (JStr ''tk-7'')) ''m1'' ''a@b.com'' ''hello'' ''email'')
     = Inr \<lparr>status = 204, response_json = Inl e\<rparr> \<and>
     outcome (postWorkItem empty_body_world sample_workitem ''https://t.example/work-items''
      (Some (JStr ''tk-7'')) ''m1'' ''a@b.com'' ''hello'' ''email'' ())
     = Inl e)"
proof -
  let ?args = "\<lambda>w. workitem_request sample_workitem w ''https://t.example/work-items''
      (Some (JStr ''tk-7'')) ''m1'' ''a@b.com'' ''hello'' ''email''"
  have a: "fetch unauthorized_world (?args unauthorized_world)
     = Inr \<lparr>status = 401, response_json = Inr (JObj [])\<rparr>"
    by (simp add: unauthorized_world_def)
  have b: "fetch sample_world (?args sample_world)
     = Inr \<lparr>status = 200, response_json = Inr (JObj [(''contactId'', JNum 42)])\<rparr>"
    by (simp add: sample_world_def sample_fetch_def workitem_request_def)
  have c: "fetch silent_world (?args silent_world)
     = Inr \<lparr>status = 201, response_json = Inr (JObj [(''status'', JStr ''created'')])\<rparr>"
    by (simp add: silent_world_def)
  from postWorkItem_contract[of unauthorized_world sample_workitem "''https://t.example/work-items''"
      "Some (JStr ''tk-7'')" "''m1''" "''a@b.com''" "''hello''" "''email''" "()"] a
  have 1: "outcome (postWorkItem unauthorized_world sample_workitem ''https://t.example/work-items''
      (Some (JStr ''tk-7'')) ''m1'' ''a@b.com'' ''hello'' ''email'' ())
     = Inl (Error ''response status: 401'')"
    by (simp add: show_nat_401)
  from postWorkItem_contract[of sample_world sample_workitem "''https://t.example/work-items''"
      "Some (JStr ''tk-7'')" "''m1''" "''a@b.com''" "''hello''" "''email''" "()"] b
  have 2: "outcome (postWorkItem sample_world sample_workitem ''https://t.example/work-items''
      (Some (JStr ''tk-7'')) ''m1'' ''a@b.com'' ''hello'' ''email'' ())
     = Inr (Some (JNum 42))"
    by simp
  from postWorkItem_contract[of silent_world sample_workitem "''https://t.example/work-items''"
      "Some (JStr ''tk-7'')" "''m1''" "''a@b.com''" "''hello''" "''email''" "()"] c
  have 3: "outcome (postWorkItem silent_world sample_workitem ''https://t.example/work-items''
      (Some (JStr ''tk-7'')) ''m1'' ''a@b.com'' ''hello'' ''email'' ())
     = Inr None"
    by simp
  have d: "fetch null_body_world (?args null_body_world)
     = Inr \<lparr>status = 200, response_json = Inr JNull\<rparr>"
    by (simp add: null_body_world_def)
  from postWorkItem_contract[of null_body_world sample_workitem "''https://t.example/work-items''"
      "Some (JStr ''tk-7'')" "''m1''" "''a@b.com''" "''hello''" "''email''" "()"] d
  have 4: "\<exists>msg. outcome (postWorkItem null_body_world sample_workitem
      ''https://t.example/work-items'' (Some (JStr ''tk-7'')) ''m1'' ''a@b.com'' ''hello'' ''email'' ())
     = Inl (TypeError msg)"
    by simp
  let ?e = "\<lparr>err_name = ''SyntaxError'', err_code = None,
             err_message = ''Unexpected end of JSON input''\<rparr>"
  have e: "fetch empty_body_world (?args empty_body_world)
     = Inr \<lparr>status = 204, response_json = Inl ?e\<rparr>"
    by (simp add: empty_body_world_def)
  from postWorkItem_contract[of empty_body_world sample_workitem "''https://t.example/work-items''"
      "Some (JStr ''tk-7'')" "''m1''" "''a@b.com''" "''hello''" "''email''" "()"] e
  have 5: "outcome (postWorkItem empty_body_world sample_workitem
      ''https://t.example/work-items'' (Some (JStr ''tk-7'')) ''m1'' ''a@b.com'' ''hello'' ''email'' ())
     = Inl ?e"
    by simp
  from e 5 have 6: "\<exists>e. fetch empty_body_world (?args empty_body_world)
     = Inr \<lparr>status = 204, response_json = Inl e\<rparr> \<and>
     outcome (postWorkItem empty_body_world sample_workitem
      ''https://t.example/work-items'' (Some (JStr ''tk-7'')) ''m1'' ''a@b.com'' ''hello'' ''email'' ())
     = Inl e" by blast
  from a b c d 1 2 3 4 6 show ?thesis by blast
qed

text \<open>
  Claim C8 as stated fails: the ticketing service answers with status 200 and the body
  \<open>null\<close>. The response is successful and the body has no \<open>contactId\<close> field, yet the
  result is a \<open>TypeError\<close>, not \<open>undefined\<close>.
\<close>

theorem postWorkItem_null_body_counterexample:
  "fetch null_body_world (workitem_request sample_workitem null_body_world
      ''https://t.example/work-items'' (Some (JStr ''tk-7'')) ''m1'' ''a@b.com'' ''hello'' ''email'')
     = Inr \<lparr>status = 200, response_json = Inr JNull\<rparr> \<and>
   response_ok \<lparr>status = 200, response_json = Inr JNull\<rparr> \<and>
   prop_of JNull ''contactId'' = None \<and>
   outcome (postWorkItem null_body_world sample_workitem ''https://t.example/work-items''
      (Some (JStr ''tk-7'')) ''m1'' ''a@b.com'' ''hello'' ''email'' ())
     = Inl (TypeError ''Cannot read property contactId of null'') \<and>
   outcome (postWorkItem null_body_world sample_workitem ''https://t.example/work-items''
      (Some (JStr ''tk-7'')) ''m1'' ''a@b.com'' ''hello'' ''email'' ())
     \<noteq> Inr None"
  by (simp add: postWorkItem_run outcome_def json_if_ok_def response_ok_def Let_def
      null_body_world_def)

lemma sample_getToken:
  "outcome (getToken sample_world sample_workitem ()) = Inr sample_ticket_token"
  by (simp add: getToken_run outcome_def sample_world_def sample_fetch_def token_request_def
      json_if_ok_def response_ok_def sample_ticket_token_def)

lemma sample_base_uri:
  "prop_of sample_ticket_token ''resource_server_base_uri''
     = Some (JStr ''https://api-c7.incontact.com/inContactAPI/'')"
  by (simp add: sample_ticket_token_def)

theorem sendEmail_posts_to_witness:
  "outcome (getToken sample_world sample_workitem ()) = Inr sample_ticket_token \<and>
   prop_of sample_ticket_token ''resource_server_base_uri''
     = Some (JStr ''https://api-c7.incontact.com/inContactAPI/'') \<and>
   map url (fetches (trace (sendEmail sample_world sample_workitem ''m1'' ''a@b.com'' ''hello'' ())))
     = [''https://api.incontact.com/InContactAuthorizationServer/Token'',
        ''https://api-c7.incontact.com/inContactAPI/services/v13.0/interactions/work-items'']"
  using sendEmail_posts_to[OF sample_getToken sample_base_uri, of "''m1''" "''a@b.com''" "''hello''"]
    sample_getToken sample_base_uri
  by simp

text \<open>
  Claim C5 as stated fails: with the base resource URI of the sample world, the work
  item is not posted to the URL that has a slash between the base and \<open>services\<close>.
\<close>

theorem sendEmail_slash_counterexample:
  "outcome (getToken sample_world sample_workitem ()) = Inr sample_ticket_token \<and>
   prop_of sample_ticket_token ''resource_server_base_uri''
     = Some (JStr ''https://api-c7.incontact.com/inContactAPI/'') \<and>
   url (last (fetches (trace (sendEmail sample_world sample_workitem ''m1'' ''a@b.com'' ''hello'' ()))))
     \<noteq> ''https://api-c7.incontact.com/inContactAPI/'' @ ''/'' @ ''services/'' @ version
         @ ''/interactions/work-items''"
  by (simp add: sendEmail_fetches[OF sample_getToken] sample_getToken sample_base_uri
      js_to_string_def workitem_request_def version_def)

section \<open>gmail.js: authorize\<close>

lemma then_p_Inr: "p s = (Inr a, s1, t1) \<Longrightarrow> then_p p f s = (case f a s1 of (r, s2, t2) \<Rightarrow> (r, s2, t1 @ t2))"
  by (simp add: then_p_def)

lemma then_p_Inl: "p s = (Inl e, s1, t1) \<Longrightarrow> then_p p f s = (Inl e, s1, t1)"
  by (simp add: then_p_def)

lemma catch_p_Inl: "p s = (Inl e, s1, t1) \<Longrightarrow> catch_p p h s = (case h e s1 of (r, s2, t2) \<Rightarrow> (r, s2, t1 @ t2))"
  by (simp add: catch_p_def)

lemma catch_p_Inr: "p s = (Inr a, s1, t1) \<Longrightarrow> catch_p p h s = (Inr a, s1, t1)"
  by (simp add: catch_p_def)

lemma valid_credential_fileD:
  assumes "valid_credential_file w path"
  obtains cred kvs inst us where
    "readFile w path = Inr cred" "JSON_parse w cred = Inr (JObj kvs)"
    "map_of kvs ''installed'' = Some (JObj inst)" "map_of inst ''redirect_uris'' = Some (JArr us)"
proof -
  from assms obtain cred where 1: "readFile w path = Inr cred"
    by (cases "readFile w path") (simp_all add: valid_credential_file_def)
  from assms 1 obtain c where 2: "JSON_parse w cred = Inr c"
    by (cases "JSON_parse w cred") (simp_all add: valid_credential_file_def)
  from assms 1 2 obtain i where 3: "prop_of c ''installed'' = Some i"
    by (cases "prop_of c ''installed''") (simp_all add: valid_credential_file_def)
  from assms 1 2 3 obtain inst where 4: "i = JObj inst"
    by (cases i) (simp_all add: valid_credential_file_def)
  from assms 1 2 3 4 obtain u where 5: "map_of inst ''redirect_uris'' = Some u"
    by (cases "map_of inst ''redirect_uris''") (simp_all add: valid_credential_file_def)
  from assms 1 2 3 4 5 obtain us where 6: "u = JArr us"
    by (cases u) (simp_all add: valid_credential_file_def)
  from 3 obtain kvs where 7: "c = JObj kvs" by (cases c) simp_all
  from 1 2 3 4 5 6 7 that show thesis by simp
qed

lemma authorize_cred_valid:
  assumes "JSON_parse w cred = Inr (JObj kvs)"
    "map_of kvs ''installed'' = Some (JObj inst)" "map_of inst ''redirect_uris'' = Some (JArr us)"
  shows "authorize_cred w cred g =
           (readFile w (tokenFile g), g\<lparr>oAuth2Client := Some (loaded_client inst us)\<rparr>,
            [ReadFile (tokenFile g)])"
  using assms
  by (simp add: authorize_cred_def then_p_def settle_def readFileAsync_def
      destructure_installed_def loaded_client_def)

lemma getNewToken_exchange_fails:
  assumes "oAuth2Client g = Some c"
    "oauth_getToken w c (rl_question w ''Enter the code from that page here: '') = Inl err"
  shows "getNewToken w g =
           (Inl err, g, handshake_events w c @ [ConsoleError (''_getNewToken() - '' @ err_message err)])"
  using assms
  by (simp add: getNewToken_def getNewToken_exchange_def ask_def the_client_def
      then_p_def catch_p_def emit_def reject_def handshake_events_def)

lemma getNewToken_exchange_succeeds:
  assumes "oAuth2Client g = Some c"
    "oauth_getToken w c (rl_question w ''Enter the code from that page here: '') = Inr token"
  shows "getNewToken w g =
           (case writeFile w (tokenFile g) (JSON_stringify w token) of
              None \<Rightarrow> (Inr (), g\<lparr>oAuth2Client := Some (c\<lparr>credentials := token\<rparr>)\<rparr>,
                        handshake_events w c @ [WriteFile (tokenFile g) (JSON_stringify w token)])
            | Some err \<Rightarrow> (Inl err, g\<lparr>oAuth2Client := Some (c\<lparr>credentials := token\<rparr>)\<rparr>,
                        handshake_events w c @ [WriteFile (tokenFile g) (JSON_stringify w token),
                          ConsoleError (''_getNewToken() - '' @ err_message err)]))"
proof (cases "writeFile w (tokenFile g) (JSON_stringify w token)")
  case None
  with assms show ?thesis
    by (simp add: getNewToken_def getNewToken_exchange_def getNewToken_store_def ask_def
        the_client_def setCredentials_def writeFileAsync_def
        then_p_def catch_p_def emit_def reject_def resolve_def handshake_events_def)
next
  case (Some err)
  with assms show ?thesis
    by (simp add: getNewToken_def getNewToken_exchange_def getNewToken_store_def ask_def
        the_client_def setCredentials_def writeFileAsync_def
        then_p_def catch_p_def emit_def reject_def resolve_def handshake_events_def)
qed

lemma getNewToken_no_client:
  assumes "oAuth2Client g = None"
  shows "getNewToken w g =
           (Inl (TypeError ''Cannot read property generateAuthUrl of null''), g,
            [ConsoleLog ''_getNewToken()''])"
  using assms
  by (simp add: getNewToken_def the_client_def then_p_def emit_def)

lemma authorize_result_run:
  assumes "oAuth2Client g = Some c"
  shows "authorize_result w result g =
           (case JSON_parse w result of
              Inl e \<Rightarrow> (Inl e, g, [])
            | Inr token \<Rightarrow> (Inr (), g\<lparr>oAuth2Client := Some (c\<lparr>credentials := token\<rparr>)\<rparr>, []))"
  using assms
  by (cases "JSON_parse w result")
     (simp_all add: authorize_result_def the_client_def setCredentials_def then_p_def settle_def)

lemma authorize_catch_other:
  "err_code err \<noteq> Some ''ENOENT'' \<Longrightarrow>
     authorize_catch w err g = (Inl err, g, [ConsoleError (''authorize() - '' @ err_message err)])"
  by (simp add: authorize_catch_def then_p_def emit_def reject_def)

lemma authorize_catch_ENOENT:
  "err_code err = Some ''ENOENT'' \<Longrightarrow> authorize_catch w err g = getNewToken w g"
  by (simp add: authorize_catch_def)

lemma authorize_outer:
  assumes "catch_p (then_p (then_p (\<lambda>g. readFileAsync w (credentialFile g) g) (authorize_cred w))
              (authorize_result w)) (authorize_catch w) g = (r, g', t)"
  shows "authorize w g = (r, g', ConsoleLog ''authorize()'' # t)"
proof -
  have "emit (ConsoleLog ''authorize()'') g = (Inr (), g, [ConsoleLog ''authorize()''])"
    by (simp add: emit_def)
  from then_p_Inr[of "emit (ConsoleLog ''authorize()'')" g, OF this,
      of "\<lambda>_. catch_p (then_p (then_p (\<lambda>g. readFileAsync w (credentialFile g) g) (authorize_cred w))
              (authorize_result w)) (authorize_catch w)"] assms
  show ?thesis unfolding authorize_def by simp
qed

lemma authorize_token_present:
  assumes "readFile w (credentialFile g) = Inr cred" "JSON_parse w cred = Inr (JObj kvs)"
    "map_of kvs ''installed'' = Some (JObj inst)" "map_of inst ''redirect_uris'' = Some (JArr us)"
    "readFile w (tokenFile g) = Inr result" "JSON_parse w result = Inr token"
  shows "authorize w g =
           (Inr (), g\<lparr>oAuth2Client := Some ((loaded_client inst us)\<lparr>credentials := token\<rparr>)\<rparr>,
            [ConsoleLog ''authorize()'', ReadFile (credentialFile g), ReadFile (tokenFile g)])"
proof -
  let ?g1 = "g\<lparr>oAuth2Client := Some (loaded_client inst us)\<rparr>"
  let ?load = "then_p (\<lambda>g. readFileAsync w (credentialFile g) g) (authorize_cred w)"
  have 1: "?load g = (Inr result, ?g1, [ReadFile (credentialFile g), ReadFile (tokenFile g)])"
    using assms(1,5) by (simp add: then_p_def readFileAsync_def authorize_cred_valid[OF assms(2-4)])
  have 2: "authorize_result w result ?g1
             = (Inr (), g\<lparr>oAuth2Client := Some ((loaded_client inst us)\<lparr>credentials := token\<rparr>)\<rparr>, [])"
    using assms(6) by (simp add: authorize_result_run[of ?g1 "loaded_client inst us"])
  have 3: "then_p ?load (authorize_result w) g
             = (Inr (), g\<lparr>oAuth2Client := Some ((loaded_client inst us)\<lparr>credentials := token\<rparr>)\<rparr>,
                [ReadFile (credentialFile g), ReadFile (tokenFile g)])"
    using then_p_Inr[of ?load g, OF 1, of "authorize_result w"] 2 by simp
  from catch_p_Inr[of "then_p ?load (authorize_result w)" g, OF 3, of "authorize_catch w"]
  show ?thesis by (rule authorize_outer)
qed

lemma authorize_token_unreadable:
  assumes "readFile w (credentialFile g) = Inr cred" "JSON_parse w cred = Inr (JObj kvs)"
    "map_of kvs ''installed'' = Some (JObj inst)" "map_of inst ''redirect_uris'' = Some (JArr us)"
    "readFile w (tokenFile g) = Inl e"
    "authorize_catch w e (g\<lparr>oAuth2Client := Some (loaded_client inst us)\<rparr>) = (r, g', t)"
  shows "authorize w g =
           (r, g', [ConsoleLog ''authorize()'', ReadFile (credentialFile g), ReadFile (tokenFile g)] @ t)"
proof -
  let ?g1 = "g\<lparr>oAuth2Client := Some (loaded_client inst us)\<rparr>"
  let ?load = "then_p (\<lambda>g. readFileAsync w (credentialFile g) g) (authorize_cred w)"
  have 1: "?load g = (Inl e, ?g1, [ReadFile (credentialFile g), ReadFile (tokenFile g)])"
    using assms(1,5) by (simp add: then_p_def readFileAsync_def authorize_cred_valid[OF assms(2-4)])
  note 3 = then_p_Inl[of ?load g, OF 1, of "authorize_result w"]
  from catch_p_Inl[of "then_p ?load (authorize_result w)" g, OF 3, of "authorize_catch w"] assms(6)
  have "catch_p (then_p ?load (authorize_result w)) (authorize_catch w) g
          = (r, g', [ReadFile (credentialFile g), ReadFile (tokenFile g)] @ t)"
    by simp
  from authorize_outer[OF this] show ?thesis by simp
qed

lemma authorize_credentials_unreadable:
  assumes "readFile w (credentialFile g) = Inl e" "authorize_catch w e g = (r, g', t)"
  shows "authorize w g = (r, g', [ConsoleLog ''authorize()'', ReadFile (credentialFile g)] @ t)"
proof -
  let ?load = "then_p (\<lambda>g. readFileAsync w (credentialFile g) g) (authorize_cred w)"
  have 1: "?load g = (Inl e, g, [ReadFile (credentialFile g)])"
    using assms(1) by (simp add: then_p_def readFileAsync_def)
  note 3 = then_p_Inl[of ?load g, OF 1, of "authorize_result w"]
  from catch_p_Inl[of "then_p ?load (authorize_result w)" g, OF 3, of "authorize_catch w"] assms(2)
  have "catch_p (then_p ?load (authorize_result w)) (authorize_catch w) g
          = (r, g', [ReadFile (credentialFile g)] @ t)"
    by simp
  from authorize_outer[OF this] show ?thesis by simp
qed

lemma handshake_observed:
  "questions (handshake_events w c @ t) = ''Enter the code from that page here: '' # questions t"
  "exchanges (handshake_events w c @ t) =
     (rl_question w ''Enter the code from that page here: '',
      oauth_getToken w c (rl_question w ''Enter the code from that page here: '')) # exchanges t"
  "writes (handshake_events w c @ t) = writes t"
  by (simp_all add: handshake_events_def)

lemma authorize_first_run:
  assumes "valid_credential_file w (credentialFile g)" "token_file_absent w (tokenFile g)"
  shows "\<exists>c. authorize w g =
           (case getNewToken w (g\<lparr>oAuth2Client := Some c\<rparr>) of
              (r, g', t) \<Rightarrow>
                (r, g', [ConsoleLog ''authorize()'', ReadFile (credentialFile g),
                         ReadFile (tokenFile g)] @ t))"
proof -
  from assms(1) obtain cred kvs inst us where v:
    "readFile w (credentialFile g) = Inr cred" "JSON_parse w cred = Inr (JObj kvs)"
    "map_of kvs ''installed'' = Some (JObj inst)" "map_of inst ''redirect_uris'' = Some (JArr us)"
    by (rule valid_credential_fileD)
  from assms(2) obtain e where e: "readFile w (tokenFile g) = Inl e" "err_code e = Some ''ENOENT''"
    by (cases "readFile w (tokenFile g)") (simp_all add: token_file_absent_def)
  let ?g1 = "g\<lparr>oAuth2Client := Some (loaded_client inst us)\<rparr>"
  obtain r g' t where n: "getNewToken w ?g1 = (r, g', t)" by (cases "getNewToken w ?g1") auto
  then have "authorize_catch w e ?g1 = (r, g', t)" using e(2) by (simp add: authorize_catch_ENOENT)
  from authorize_token_unreadable[OF v e(1) this] n show ?thesis
    by (intro exI[of _ "loaded_client inst us"]) simp
qed

text \<open>
  Claim C1, as amended. For a run of \<open>authorize\<close> with a valid credential file: when
  the token file is absent there is exactly one operator prompt and exactly one exchange
  of the operator's code; when that exchange succeeds there is exactly one write, of the
  new token to the token file, and when it fails there is no write and \<open>authorize\<close>
  fails with the error of the exchange. When the token file is present and well-formed
  there is no prompt and no write, \<open>authorize\<close> succeeds, and the credentials of the
  session are the persisted token.
\<close>

theorem authorize_prompts_and_writes:
  assumes "valid_credential_file w (credentialFile g)"
  shows
   "(token_file_absent w (tokenFile g) \<longrightarrow>
       questions (trace (authorize w g)) = [''Enter the code from that page here: ''] \<and>
       (\<exists>result.
          exchanges (trace (authorize w g))
            = [(rl_question w ''Enter the code from that page here: '', result)] \<and>
          (case result of
             Inr token \<Rightarrow> writes (trace (authorize w g)) = [(tokenFile g, JSON_stringify w token)]
           | Inl err \<Rightarrow> writes (trace (authorize w g)) = [] \<and> outcome (authorize w g) = Inl err))) \<and>
    (\<forall>token. token_file_holds w (tokenFile g) token \<longrightarrow>
       questions (trace (authorize w g)) = [] \<and> writes (trace (authorize w g)) = [] \<and>
       outcome (authorize w g) = Inr () \<and>
       map_option credentials (oAuth2Client (final_state (authorize w g))) = Some token)"
proof (intro conjI impI allI)
  assume absent: "token_file_absent w (tokenFile g)"
  from authorize_first_run[OF assms absent] obtain c where a:
    "authorize w g =
       (case getNewToken w (g\<lparr>oAuth2Client := Some c\<rparr>) of
          (r, g', t) \<Rightarrow>
            (r, g', [ConsoleLog ''authorize()'', ReadFile (credentialFile g),
                     ReadFile (tokenFile g)] @ t))" by blast
  let ?g1 = "g\<lparr>oAuth2Client := Some c\<rparr>"
  let ?code = "rl_question w ''Enter the code from that page here: ''"
  have c: "oAuth2Client ?g1 = Some c" by simp
  show "questions (trace (authorize w g)) = [''Enter the code from that page here: '']"
  proof (cases "oauth_getToken w c ?code")
    case (Inl err)
    from getNewToken_exchange_fails[OF c Inl] show ?thesis
      by (simp add: a trace_def handshake_observed)
  next
    case (Inr token)
    from getNewToken_exchange_succeeds[OF c Inr] show ?thesis
      by (simp add: a trace_def handshake_observed split: option.splits)
  qed
  show "\<exists>result.
          exchanges (trace (authorize w g)) = [(?code, result)] \<and>
          (case result of
             Inr token \<Rightarrow> writes (trace (authorize w g)) = [(tokenFile g, JSON_stringify w token)]
           | Inl err \<Rightarrow> writes (trace (authorize w g)) = [] \<and> outcome (authorize w g) = Inl err)"
  proof (cases "oauth_getToken w c ?code")
    case (Inl err)
    from getNewToken_exchange_fails[OF c Inl] show ?thesis
      by (intro exI[of _ "Inl err"]) (simp add: a trace_def outcome_def handshake_observed Inl)
  next
    case (Inr token)
    from getNewToken_exchange_succeeds[OF c Inr] show ?thesis
      by (intro exI[of _ "Inr token"])
         (simp add: a trace_def handshake_observed Inr split: option.splits)
  qed
next
  fix token assume "token_file_holds w (tokenFile g) token"
  then obtain result where t: "readFile w (tokenFile g) = Inr result" "JSON_parse w result = Inr token"
    by (cases "readFile w (tokenFile g)") (simp_all add: token_file_holds_def)
  from assms obtain cred kvs inst us where v:
    "readFile w (credentialFile g) = Inr cred" "JSON_parse w cred = Inr (JObj kvs)"
    "map_of kvs ''installed'' = Some (JObj inst)" "map_of inst ''redirect_uris'' = Some (JArr us)"
    by (rule valid_credential_fileD)
  note a = authorize_token_present[OF v t]
  show "questions (trace (authorize w g)) = []" by (simp add: a trace_def)
  show "writes (trace (authorize w g)) = []" by (simp add: a trace_def)
  show "outcome (authorize w g) = Inr ()" by (simp add: a outcome_def)
  show "map_option credentials (oAuth2Client (final_state (authorize w g))) = Some token"
    by (simp add: a final_state_def)
qed

lemma sample_valid_credentials:
  "valid_credential_file sample_world (credentialFile sample_gmail)"
  "valid_credential_file first_run_world (credentialFile sample_gmail)"
  "valid_credential_file refused_code_world (credentialFile sample_gmail)"
  by (simp_all add: valid_credential_file_def sample_world_def first_run_world_def
      refused_code_world_def sample_gmail_def new_Gmail_def sample_credentials_def)

lemma sample_token_files:
  "token_file_holds sample_world (tokenFile sample_gmail) sample_token"
  "token_file_absent first_run_world (tokenFile sample_gmail)"
  "token_file_absent refused_code_world (tokenFile sample_gmail)"
  by (simp_all add: token_file_holds_def token_file_absent_def sample_world_def first_run_world_def
      refused_code_world_def sample_gmail_def new_Gmail_def ENOENT_def)

theorem authorize_prompts_and_writes_witness:
  "valid_credential_file first_run_world (credentialFile sample_gmail) \<and>
   token_file_absent first_run_world (tokenFile sample_gmail) \<and>
   questions (trace (authorize first_run_world sample_gmail))
     = [''Enter the code from that page here: ''] \<and>
   writes (trace (authorize first_run_world sample_gmail)) = [(''token.json'', ''TOKEN'')] \<and>
   valid_credential_file sample_world (credentialFile sample_gmail) \<and>
   token_file_holds sample_world (tokenFile sample_gmail) sample_token \<and>
   questions (trace (authorize sample_world sample_gmail)) = [] \<and>
   writes (trace (authorize sample_world sample_gmail)) = [] \<and>
   outcome (authorize sample_world sample_gmail) = Inr ()"
proof -
  have w: "writes (trace (authorize first_run_world sample_gmail)) = [(''token.json'', ''TOKEN'')]"
    by code_simp
  from authorize_prompts_and_writes[OF sample_valid_credentials(2)] sample_token_files(2)
  have 1: "questions (trace (authorize first_run_world sample_gmail))
     = [''Enter the code from that page here: '']" by blast
  from authorize_prompts_and_writes[OF sample_valid_credentials(1)] sample_token_files(1)
  have 2: "questions (trace (authorize sample_world sample_gmail)) = []"
    "writes (trace (authorize sample_world sample_gmail)) = []"
    "outcome (authorize sample_world sample_gmail) = Inr ()" by blast+
  from w 1 2 sample_valid_credentials sample_token_files show ?thesis by blast
qed

text \<open>
  Claim C1 as stated fails: on a first run in which the provider refuses the code, the
  credential file is valid and the token file absent, the operator is asked once, and
  nothing is written.
\<close>

theorem authorize_refused_code_counterexample:
  "valid_credential_file refused_code_world (credentialFile sample_gmail) \<and>
   token_file_absent refused_code_world (tokenFile sample_gmail) \<and>
   questions (trace (authorize refused_code_world sample_gmail))
     = [''Enter the code from that page here: ''] \<and>
   writes (trace (authorize refused_code_world sample_gmail)) = [] \<and>
   length (writes (trace (authorize refused_code_world sample_gmail))) \<noteq> 1"
proof -
  have "questions (trace (authorize refused_code_world sample_gmail))
     = [''Enter the code from that page here: '']"
    by code_simp
  moreover have "writes (trace (authorize refused_code_world sample_gmail)) = []"
    by code_simp
  ultimately show ?thesis using sample_valid_credentials(3) sample_token_files(3) by simp
qed

text \<open>
  Claim C2, at the input where the code departs from it. The credential file is missing
  (the token file is there). The \<open>ENOENT\<close> of the credential file takes the branch
  meant for a missing token file: \<open>_getNewToken\<close> runs with no OAuth2 client,
  \<open>authorize\<close> fails with the \<open>TypeError\<close> of \<open>generateAuthUrl\<close> instead of the error
  of the file read, and nothing is logged as an error.
\<close>

theorem authorize_missing_credential_file:
  "readFile no_credentials_world (credentialFile sample_gmail) = Inl (ENOENT ''credentials.json'') \<and>
   outcome (authorize no_credentials_world sample_gmail)
     = Inl (TypeError ''Cannot read property generateAuthUrl of null'') \<and>
   outcome (authorize no_credentials_world sample_gmail) \<noteq> Inl (ENOENT ''credentials.json'') \<and>
   trace (authorize no_credentials_world sample_gmail)
     = [ConsoleLog ''authorize()'', ReadFile ''credentials.json'', ConsoleLog ''_getNewToken()''] \<and>
   console_errors (trace (authorize no_credentials_world sample_gmail)) = []"
proof -
  have r: "readFile no_credentials_world (credentialFile sample_gmail) = Inl (ENOENT ''credentials.json'')"
    by (simp add: no_credentials_world_def sample_gmail_def new_Gmail_def)
  have "authorize_catch no_credentials_world (ENOENT ''credentials.json'') sample_gmail
          = (Inl (TypeError ''Cannot read property generateAuthUrl of null''), sample_gmail,
             [ConsoleLog ''_getNewToken()''])"
    by (simp add: authorize_catch_ENOENT ENOENT_def getNewToken_no_client sample_gmail_def
        new_Gmail_def)
  from authorize_credentials_unreadable[OF r this] r show ?thesis
    by (simp add: outcome_def trace_def sample_gmail_def new_Gmail_def TypeError_def ENOENT_def)
qed

text \<open>
  What the single \<open>.catch\<close> does with a failure of the chain, wherever it arose: an
  error whose code is \<open>ENOENT\<close> starts the handshake, any other error is logged and
  re-raised as it is.
\<close>

lemma authorize_failure_policy:
  assumes "then_p (then_p (\<lambda>g. readFileAsync w (credentialFile g) g) (authorize_cred w))
             (authorize_result w) g = (Inl e, g1, t)"
  shows "authorize w g =
           (if err_code e = Some ''ENOENT''
            then (case getNewToken w g1 of
                    (r, g2, t2) \<Rightarrow> (r, g2, ConsoleLog ''authorize()'' # t @ t2))
            else (Inl e, g1,
                  ConsoleLog ''authorize()'' # t @ [ConsoleError (''authorize() - '' @ err_message e)]))"
proof (cases "err_code e = Some ''ENOENT''")
  case True
  obtain r g2 t2 where n: "getNewToken w g1 = (r, g2, t2)" by (cases "getNewToken w g1") auto
  with True have "authorize_catch w e g1 = (r, g2, t2)" by (simp add: authorize_catch_ENOENT)
  with catch_p_Inl[of "then_p (then_p (\<lambda>g. readFileAsync w (credentialFile g) g)
        (authorize_cred w)) (authorize_result w)" g, OF assms, of "authorize_catch w"]
  have "catch_p (then_p (then_p (\<lambda>g. readFileAsync w (credentialFile g) g) (authorize_cred w))
             (authorize_result w)) (authorize_catch w) g = (r, g2, t @ t2)" by simp
  from authorize_outer[OF this] True n show ?thesis by simp
next
  case False
  with catch_p_Inl[of "then_p (then_p (\<lambda>g. readFileAsync w (credentialFile g) g)
        (authorize_cred w)) (authorize_result w)" g, OF assms, of "authorize_catch w"]
    authorize_catch_other[OF False, of w g1]
  have "catch_p (then_p (then_p (\<lambda>g. readFileAsync w (credentialFile g) g) (authorize_cred w))
             (authorize_result w)) (authorize_catch w) g
          = (Inl e, g1, t @ [ConsoleError (''authorize() - '' @ err_message e)])" by simp
  from authorize_outer[OF this] False show ?thesis by simp
qed

text \<open>
  A failure to read the credential file for any other reason is logged and re-raised as
  it is, with no prompt.
\<close>

lemma authorize_other_failure_rethrown:
  assumes "readFile w (credentialFile g) = Inl e" "err_code e \<noteq> Some ''ENOENT''"
  shows "outcome (authorize w g) = Inl e \<and>
         console_errors (trace (authorize w g)) = [''authorize() - '' @ err_message e] \<and>
         questions (trace (authorize w g)) = []"
  using authorize_credentials_unreadable[OF assms(1) authorize_catch_other[OF assms(2)]]
  by (simp add: outcome_def trace_def)

section \<open>The batch of the main driver\<close>

lemma getMessageList_run:
  "getMessageList w g =
     (case messages_list w (oAuth2Client g) of
        Inl e \<Rightarrow> (Inl e, g, [ConsoleLog ''getMessageList()'', GmailMessagesList,
                     ConsoleError (''getMessageList() - '' @ err_message e)])
      | Inr msgs \<Rightarrow> (Inr msgs, g, [ConsoleLog ''getMessageList()'', GmailMessagesList]))"
  by (simp add: getMessageList_def promise_defs split: sum.splits)

lemma getToken_state: "final_state (getToken w this s) = s"
  by (simp add: getToken_run final_state_def split: sum.splits)

lemma postWorkItem_state: "final_state (postWorkItem w this u tok i f p ty s) = s"
  by (simp add: postWorkItem_run final_state_def Let_def split: sum.splits)

lemma then_p_state:
  assumes "\<And>s. final_state (p s) = s" "\<And>a s. final_state (f a s) = s"
  shows "final_state (then_p p f s) = s"
proof (cases "p s")
  case (fields r s1 t1)
  with assms(1)[of s] have s1: "s1 = s" by (simp add: final_state_def)
  show ?thesis
  proof (cases r)
    case (Inl e)
    with fields s1 show ?thesis by (simp add: then_p_def final_state_def)
  next
    case (Inr a)
    obtain r2 s2 t2 where f: "f a s = (r2, s2, t2)" by (cases "f a s") auto
    with assms(2)[of a s] have "s2 = s" by (simp add: final_state_def)
    with fields s1 Inr f show ?thesis by (simp add: then_p_def final_state_def)
  qed
qed

lemma catch_p_state:
  assumes "\<And>s. final_state (p s) = s" "\<And>e s. final_state (h e s) = s"
  shows "final_state (catch_p p h s) = s"
proof (cases "p s")
  case (fields r s1 t1)
  with assms(1)[of s] have s1: "s1 = s" by (simp add: final_state_def)
  show ?thesis
  proof (cases r)
    case (Inr a)
    with fields s1 show ?thesis by (simp add: catch_p_def final_state_def)
  next
    case (Inl e)
    obtain r2 s2 t2 where h: "h e s = (r2, s2, t2)" by (cases "h e s") auto
    with assms(2)[of e s] have "s2 = s" by (simp add: final_state_def)
    with fields s1 Inl h show ?thesis by (simp add: catch_p_def final_state_def)
  qed
qed

lemma basic_state [simp]:
  "final_state (emit ev s) = s" "final_state (reject e s) = s" "final_state (resolve a s) = s"
  "final_state (settle r s) = s"
  by (simp_all add: emit_def reject_def resolve_def settle_def final_state_def)

lemma sendEmail_state: "final_state (sendEmail w this i f p s) = s"
  unfolding sendEmail_def
  by (intro then_p_state catch_p_state) (simp_all add: getToken_state postWorkItem_state Let_def)

lemma processMessage_state: "final_state (processMessage w workItem i g) = g"
  unfolding processMessage_def
  by (intro then_p_state) (simp_all add: getMessage_state sendEmail_state)

lemma launch_all_pure:
  assumes "\<And>p s. p \<in> set ps \<Longrightarrow> final_state (p s) = s"
  shows "fst (launch_all ps s) = map (\<lambda>p. outcome (p s)) ps \<and> fst (snd (launch_all ps s)) = s"
  using assms
proof (induction ps)
  case Nil
  then show ?case by simp
next
  case (Cons p ps)
  obtain r s1 t1 where p: "p s = (r, s1, t1)" by (cases "p s") auto
  with Cons.prems[of p s] have s1: "s1 = s" by (simp add: final_state_def)
  obtain rs s2 t2 where l: "launch_all ps s = (rs, s2, t2)" by (cases "launch_all ps s") auto
  from Cons.IH Cons.prems have "fst (launch_all ps s) = map (\<lambda>p. outcome (p s)) ps"
    "fst (snd (launch_all ps s)) = s" by auto
  with l have "rs = map (\<lambda>p. outcome (p s)) ps" "s2 = s" by simp_all
  with p s1 l show ?case by (simp add: outcome_def)
qed

lemma Promise_all_outcome:
  assumes "\<And>p s. p \<in> set ps \<Longrightarrow> final_state (p s) = s"
  shows "outcome (Promise_all ps s) = all_fulfilled (map (\<lambda>p. outcome (p s)) ps)"
proof -
  have "fst (launch_all ps s) = map (\<lambda>p. outcome (p s)) ps"
    using launch_all_pure[of ps s] assms by blast
  then show ?thesis
    by (cases "launch_all ps s") (simp add: Promise_all_def outcome_def)
qed

lemma all_fulfilled_Inr:
  "(\<forall>r\<in>set rs. \<exists>a. r = Inr a) \<Longrightarrow> all_fulfilled rs = Inr (map projr rs)"
proof (induction rs)
  case Nil
  then show ?case by simp
next
  case (Cons r rs)
  then obtain a where "r = Inr a" by auto
  with Cons show ?case by simp
qed

lemma all_fulfilled_Inl:
  "(\<exists>e. all_fulfilled rs = Inl e) \<longleftrightarrow> (\<exists>r\<in>set rs. \<exists>e. r = Inl e)"
proof (induction rs)
  case Nil
  then show ?case by simp
next
  case (Cons r rs)
  then show ?case by (cases r) (auto split: sum.splits)
qed

lemma batch_outcome:
  "outcome (batch w workItem (Some msgs) g) =
     all_fulfilled (map (\<lambda>msg. outcome (processMessage w workItem (ref_id msg) g)) msgs)"
proof -
  have "outcome (Promise_all (map (\<lambda>msg. processMessage w workItem (ref_id msg)) msgs) g)
          = all_fulfilled (map (\<lambda>p. outcome (p g))
              (map (\<lambda>msg. processMessage w workItem (ref_id msg)) msgs))"
    by (rule Promise_all_outcome) (auto simp: processMessage_state)
  then show ?thesis by (simp add: batch_def comp_def)
qed

lemma run_outcome:
  assumes "outcome (authorize w g) = Inr ()" "final_state (authorize w g) = g1"
    "messages_list w (oAuth2Client g1) = Inr msgs"
  shows "outcome (run w workItem g) = outcome (batch w workItem msgs g1)"
proof -
  from assms(1,2) obtain t where a: "authorize w g = (Inr (), g1, t)"
    by (cases "authorize w g") (auto simp: outcome_def final_state_def)
  have l: "getMessageList w g1 = (Inr msgs, g1, [ConsoleLog ''getMessageList()'', GmailMessagesList])"
    using assms(3) by (simp add: getMessageList_run)
  show ?thesis
    by (simp add: run_def then_p_def a l outcome_def split: prod.splits sum.splits)
qed

lemma then_p_outcome:
  assumes "final_state (p s) = s"
  shows "outcome (then_p p f s) = (case outcome (p s) of Inl e \<Rightarrow> Inl e | Inr a \<Rightarrow> outcome (f a s))"
proof -
  obtain r s1 t1 where p: "p s = (r, s1, t1)" by (cases "p s") auto
  with assms have "s1 = s" by (simp add: final_state_def)
  with p show ?thesis
    by (cases r) (simp_all add: then_p_def outcome_def split: prod.splits)
qed

lemma processMessage_outcome:
  "outcome (processMessage w workItem i g) =
     (case outcome (getMessage w i g) of
        Inl e \<Rightarrow> Inl e
      | Inr m \<Rightarrow>
          (case outcome (sendEmail w workItem (msg_id m) (msg_from m) (msg_payload m) g) of
             Inl e \<Rightarrow> Inl e
           | Inr cid \<Rightarrow> Inr \<lparr>msgId = i, contactId = cid\<rparr>))"
proof -
  let ?fetch_post = "then_p (getMessage w i)
          (\<lambda>msg. sendEmail w workItem (msg_id msg) (msg_from msg) (msg_payload msg))"
  have 1: "final_state (?fetch_post g) = g"
    by (intro then_p_state) (simp_all add: getMessage_state sendEmail_state)
  have 2: "outcome (?fetch_post g) =
             (case outcome (getMessage w i g) of
                Inl e \<Rightarrow> Inl e
              | Inr m \<Rightarrow> outcome (sendEmail w workItem (msg_id m) (msg_from m) (msg_payload m) g))"
    by (rule then_p_outcome) (rule getMessage_state)
  show ?thesis
    unfolding processMessage_def then_p_outcome[of ?fetch_post g, OF 1] 2
    by (simp add: resolve_def outcome_def split: sum.splits)
qed

text \<open>
  Claim C3. Let \<open>authorize\<close> have succeeded and the inbox list \<open>N\<close> message ids. When
  for every listed id the fetch (\<open>getMessage\<close>) and the post (\<open>sendEmail\<close>) succeed, the
  batch yields exactly \<open>N\<close> pairs, in the order of the list, each with the listed id and
  the contact id its post returned. When for some listed id the fetch or the post
  fails, the batch result is a failure, not a list of pairs.
\<close>

theorem run_batch:
  assumes "outcome (authorize w g) = Inr ()" and "final_state (authorize w g) = g1"
      and "messages_list w (oAuth2Client g1) = Inr (Some msgs)"
    shows "((\<forall>msg\<in>set msgs. \<exists>m cid.
               outcome (getMessage w (ref_id msg) g1) = Inr m \<and>
               outcome (sendEmail w workItem (msg_id m) (msg_from m) (msg_payload m) g1) = Inr cid) \<longrightarrow>
            (\<exists>pairs. outcome (run w workItem g) = Inr pairs \<and> length pairs = length msgs \<and>
               map msgId pairs = map ref_id msgs \<and>
               (\<forall>k<length msgs. \<exists>m.
                  outcome (getMessage w (ref_id (msgs ! k)) g1) = Inr m \<and>
                  outcome (sendEmail w workItem (msg_id m) (msg_from m) (msg_payload m) g1)
                    = Inr (contactId (pairs ! k))))) \<and>
           ((\<exists>msg\<in>set msgs.
               (\<exists>e. outcome (getMessage w (ref_id msg) g1) = Inl e) \<or>
               (\<exists>m e. outcome (getMessage w (ref_id msg) g1) = Inr m \<and>
                  outcome (sendEmail w workItem (msg_id m) (msg_from m) (msg_payload m) g1) = Inl e)) \<longrightarrow>
            (\<exists>e. outcome (run w workItem g) = Inl e))"
proof -
  let ?results = "map (\<lambda>msg. outcome (processMessage w workItem (ref_id msg) g1)) msgs"
  have run: "outcome (run w workItem g) = all_fulfilled ?results"
    by (simp add: run_outcome[OF assms] batch_outcome)
  have all_succeed: "\<exists>pairs. outcome (run w workItem g) = Inr pairs \<and> length pairs = length msgs \<and>
               map msgId pairs = map ref_id msgs \<and>
               (\<forall>k<length msgs. \<exists>m.
                  outcome (getMessage w (ref_id (msgs ! k)) g1) = Inr m \<and>
                  outcome (sendEmail w workItem (msg_id m) (msg_from m) (msg_payload m) g1)
                    = Inr (contactId (pairs ! k)))"
    if ok: "\<forall>msg\<in>set msgs. \<exists>m cid.
               outcome (getMessage w (ref_id msg) g1) = Inr m \<and>
               outcome (sendEmail w workItem (msg_id m) (msg_from m) (msg_payload m) g1) = Inr cid"
  proof -
    have each: "\<exists>m cid. outcome (getMessage w (ref_id msg) g1) = Inr m \<and>
               outcome (sendEmail w workItem (msg_id m) (msg_from m) (msg_payload m) g1) = Inr cid \<and>
               outcome (processMessage w workItem (ref_id msg) g1)
                 = Inr \<lparr>msgId = ref_id msg, contactId = cid\<rparr>"
      if "msg \<in> set msgs" for msg
      using ok that by (fastforce simp: processMessage_outcome)
    then have "\<forall>r\<in>set ?results. \<exists>a. r = Inr a" by fastforce
    from all_fulfilled_Inr[OF this] have pairs: "outcome (run w workItem g) = Inr (map projr ?results)"
      by (simp add: run)
    have ids: "map msgId (map projr ?results) = map ref_id msgs"
      using each by (fastforce simp: comp_def)
    have nth: "\<exists>m. outcome (getMessage w (ref_id (msgs ! k)) g1) = Inr m \<and>
                  outcome (sendEmail w workItem (msg_id m) (msg_from m) (msg_payload m) g1)
                    = Inr (contactId (map projr ?results ! k))"
      if "k < length msgs" for k
      using each[of "msgs ! k"] that by fastforce
    from pairs ids nth show ?thesis
      by (intro exI[of _ "map projr ?results"]) simp
  qed
  have one_fails: "\<exists>e. outcome (run w workItem g) = Inl e"
    if "\<exists>msg\<in>set msgs.
               (\<exists>e. outcome (getMessage w (ref_id msg) g1) = Inl e) \<or>
               (\<exists>m e. outcome (getMessage w (ref_id msg) g1) = Inr m \<and>
                  outcome (sendEmail w workItem (msg_id m) (msg_from m) (msg_payload m) g1) = Inl e)"
  proof -
    from that obtain msg where "msg \<in> set msgs"
      "\<exists>e. outcome (processMessage w workItem (ref_id msg) g1) = Inl e"
      by (fastforce simp: processMessage_outcome)
    then have "\<exists>r\<in>set ?results. \<exists>e. r = Inl e" by fastforce
    then show ?thesis by (simp only: run all_fulfilled_Inl)
  qed
  from all_succeed one_fails show ?thesis by blast
qed

lemma main_of_failed_run:
  assumes "run w workItem g = (Inl e, g', t)"
  shows "main w workItem g = (Inr (), g', t @ [ConsoleLogErr e])"
  using assms by (simp add: main_def then_p_def catch_p_def emit_def)

text \<open>
  Claim C9. \<open>getMessageList\<close> returns the \<open>messages\<close> field of the answer as it is.
  When the answer has no such field the result is \<open>undefined\<close>, not an empty list, and
  the batch over it fails with the \<open>TypeError\<close> of \<open>msgs.forEach\<close> instead of yielding
  no pairs; the driver's last action is to print that error.
\<close>

theorem getMessageList_undefined:
  assumes "outcome (authorize w g) = Inr ()" and "final_state (authorize w g) = g1"
    shows "(\<forall>msgs. messages_list w (oAuth2Client g1) = Inr msgs \<longrightarrow>
              outcome (getMessageList w g1) = Inr msgs) \<and>
           (messages_list w (oAuth2Client g1) = Inr None \<longrightarrow>
              outcome (getMessageList w g1) = Inr None \<and>
              outcome (run w workItem g) = Inl (TypeError ''Cannot read property forEach of undefined'') \<and>
              outcome (run w workItem g) \<noteq> Inr [] \<and>
              last (trace (main w workItem g))
                = ConsoleLogErr (TypeError ''Cannot read property forEach of undefined''))"
proof (intro conjI allI impI)
  fix msgs assume "messages_list w (oAuth2Client g1) = Inr msgs"
  then show "outcome (getMessageList w g1) = Inr msgs"
    by (simp add: getMessageList_run outcome_def)
next
  assume none: "messages_list w (oAuth2Client g1) = Inr None"
  then show "outcome (getMessageList w g1) = Inr None"
    by (simp add: getMessageList_run outcome_def)
  from run_outcome[OF assms none]
  show r: "outcome (run w workItem g) = Inl (TypeError ''Cannot read property forEach of undefined'')"
    by (simp add: batch_def reject_def outcome_def)
  then show "outcome (run w workItem g) \<noteq> Inr []" by simp
  from r obtain g' t where "run w workItem g
      = (Inl (TypeError ''Cannot read property forEach of undefined''), g', t)"
    by (cases "run w workItem g") (auto simp: outcome_def)
  from main_of_failed_run[OF this]
  show "last (trace (main w workItem g))
          = ConsoleLogErr (TypeError ''Cannot read property forEach of undefined'')"
    by (simp add: trace_def)
qed

lemma sample_authorize:
  "outcome (authorize sample_world sample_gmail) = Inr ()"
  "outcome (authorize flaky_world sample_gmail) = Inr ()"
  "outcome (authorize empty_inbox_world sample_gmail) = Inr ()"
  by code_simp+

lemma sendEmail_outcome:
  assumes "outcome (getToken w this s) = Inr data"
  shows "outcome (sendEmail w this i from payload s) =
           outcome (postWorkItem w this
             (js_to_string (prop_of data ''resource_server_base_uri'') @ ''services/'' @ version
                @ ''/interactions/work-items'')
             (prop_of data ''access_token'') i from payload ''email'' s)"
proof -
  from assms have g: "getToken w this s = (Inr data, s, [ConsoleLog ''getToken()'', Fetch (token_request this w)])"
    by (auto simp: getToken_run outcome_def split: sum.splits if_splits)
  show ?thesis
    by (simp add: sendEmail_def then_p_def catch_p_def emit_def resolve_def reject_def g
        postWorkItem_run Let_def outcome_def
        split: sum.splits)
qed

lemma sample_getToken_any: "outcome (getToken sample_world sample_workitem s) = Inr sample_ticket_token"
  by (simp add: getToken_run outcome_def sample_world_def sample_fetch_def token_request_def
      json_if_ok_def response_ok_def sample_ticket_token_def)

lemma sample_fetch_post:
  "outcome (getMessage sample_world i (final_state (authorize sample_world sample_gmail)))
     = Inr \<lparr>msg_id = i, msg_from = ''a@b.com'', msg_payload = ''hello''\<rparr>"
  "outcome (sendEmail sample_world sample_workitem i ''a@b.com'' ''hello''
       (final_state (authorize sample_world sample_gmail))) = Inr (Some (JNum 42))"
proof -
  have "first_address (CHR 0x22 # ''A B'' @ [CHR 0x22] @ '' <a@b.com>'') = ''a@b.com''"
    unfolding first_address_def string_match_def by code_simp
  then show "outcome (getMessage sample_world i (final_state (authorize sample_world sample_gmail)))
     = Inr \<lparr>msg_id = i, msg_from = ''a@b.com'', msg_payload = ''hello''\<rparr>"
    by (simp add: getMessage_outcome getMessage_then_def sample_world_def sample_message_def Let_def)
  show "outcome (sendEmail sample_world sample_workitem i ''a@b.com'' ''hello''
       (final_state (authorize sample_world sample_gmail))) = Inr (Some (JNum 42))"
    unfolding sendEmail_outcome[OF sample_getToken_any]
    by (simp add: postWorkItem_run Let_def outcome_def sample_world_def sample_fetch_def
        workitem_request_def sample_ticket_token_def js_to_string_def json_if_ok_def
        response_ok_def version_def)
qed

theorem run_batch_witness:
  "outcome (authorize sample_world sample_gmail) = Inr () \<and>
   messages_list sample_world (oAuth2Client (final_state (authorize sample_world sample_gmail)))
     = Inr (Some [\<lparr>ref_id = ''m1''\<rparr>, \<lparr>ref_id = ''m2''\<rparr>]) \<and>
   (\<exists>pairs. outcome (run sample_world sample_workitem sample_gmail) = Inr pairs \<and>
      length pairs = 2 \<and> map msgId pairs = [''m1'', ''m2'']) \<and>
   outcome (authorize flaky_world sample_gmail) = Inr () \<and>
   messages_list flaky_world (oAuth2Client (final_state (authorize flaky_world sample_gmail)))
     = Inr (Some [\<lparr>ref_id = ''m1''\<rparr>, \<lparr>ref_id = ''m2''\<rparr>]) \<and>
   outcome (getMessage flaky_world ''m2'' (final_state (authorize flaky_world sample_gmail)))
     = Inl (Error ''Not Found'') \<and>
   (\<exists>e. outcome (run flaky_world sample_workitem sample_gmail) = Inl e)"
proof -
  have l: "messages_list sample_world (oAuth2Client (final_state (authorize sample_world sample_gmail)))
     = Inr (Some [\<lparr>ref_id = ''m1''\<rparr>, \<lparr>ref_id = ''m2''\<rparr>])"
    by (simp add: sample_world_def)
  have l': "messages_list flaky_world (oAuth2Client (final_state (authorize flaky_world sample_gmail)))
     = Inr (Some [\<lparr>ref_id = ''m1''\<rparr>, \<lparr>ref_id = ''m2''\<rparr>])"
    by (simp add: flaky_world_def sample_world_def)
  have f: "outcome (getMessage flaky_world ''m2'' (final_state (authorize flaky_world sample_gmail)))
     = Inl (Error ''Not Found'')"
    by (simp add: getMessage_outcome flaky_world_def)
  from run_batch[OF sample_authorize(1) refl l, of sample_workitem] sample_fetch_post
  obtain pairs where "outcome (run sample_world sample_workitem sample_gmail) = Inr pairs"
    "length pairs = length [\<lparr>ref_id = ''m1''\<rparr>, \<lparr>ref_id = ''m2''\<rparr>]"
    "map msgId pairs = map ref_id [\<lparr>ref_id = ''m1''\<rparr>, \<lparr>ref_id = ''m2''\<rparr>]"
    by auto
  then have 1: "\<exists>pairs. outcome (run sample_world sample_workitem sample_gmail) = Inr pairs \<and>
      length pairs = 2 \<and> map msgId pairs = [''m1'', ''m2'']"
    by simp
  from run_batch[OF sample_authorize(2) refl l', of sample_workitem] f
  have 2: "\<exists>e. outcome (run flaky_world sample_workitem sample_gmail) = Inl e"
    by simp
  from sample_authorize l l' f 1 2 show ?thesis by blast
qed

theorem getMessageList_undefined_witness:
  "outcome (authorize empty_inbox_world sample_gmail) = Inr () \<and>
   messages_list empty_inbox_world
     (oAuth2Client (final_state (authorize empty_inbox_world sample_gmail))) = Inr None \<and>
   outcome (getMessageList empty_inbox_world (final_state (authorize empty_inbox_world sample_gmail)))
     = Inr None \<and>
   outcome (run empty_inbox_world sample_workitem sample_gmail)
     = Inl (TypeError ''Cannot read property forEach of undefined'')"
proof -
  have l: "messages_list empty_inbox_world
     (oAuth2Client (final_state (authorize empty_inbox_world sample_gmail))) = Inr None"
    by (simp add: empty_inbox_world_def)
  from getMessageList_undefined[OF sample_authorize(3) refl, of sample_workitem] l
    sample_authorize(3)
  show ?thesis by simp
qed

end
